theory Spec2Isabelle
  imports Complex_Main
begin

section \<open>JavaScript values and failures\<close>

text \<open>
  A thrown value has the static type \<open>unknown\<close>: it may be any JavaScript value. Numbers
  are modelled as exact integers (status codes and whole seconds are integers); the
  rounding of IEEE doubles beyond \<open>2 ^ 53\<close> is outside the model. Strings are lists of
  code units below 256. An object is the list of its own properties.
\<close>

datatype jsval =
    JUndefined
  | JNull
  | JBool bool
  | JNum int
  | JStr string
  | JObj "(string \<times> jsval) list"

text \<open>\<open>typeof v === "object" && v !== null\<close>\<close>

fun isObject :: "jsval \<Rightarrow> bool" where
  "isObject (JObj ps) = True"
| "isObject v = False"

text \<open>
  Property read \<open>v[k]\<close>. A missing property reads as \<open>undefined\<close>, and so does the
  property \<open>k\<close> of a primitive for the keys read here. The source reads properties only
  of values it has checked to be non-null objects or truthy.
\<close>

fun getProp :: "jsval \<Rightarrow> string \<Rightarrow> jsval" where
  "getProp (JObj ps) k = (case map_of ps k of Some v \<Rightarrow> v | None \<Rightarrow> JUndefined)"
| "getProp v k = JUndefined"

text \<open>Truthiness, as tested by \<open>!v\<close>.\<close>

fun truthy :: "jsval \<Rightarrow> bool" where
  "truthy JUndefined = False"
| "truthy JNull = False"
| "truthy (JBool b) = b"
| "truthy (JNum n) = (n \<noteq> 0)"
| "truthy (JStr s) = (s \<noteq> [])"
| "truthy (JObj ps) = True"

subsection \<open>\<open>parseInt(s, 10)\<close> and \<open>Number.isFinite\<close>\<close>

text \<open>
  \<open>parseInt\<close> with radix 10: leading white space is skipped, one sign is read, then the
  longest prefix of decimal digits; no digit gives \<open>NaN\<close> (here \<open>None\<close>).
\<close>

definition isWhiteSpace :: "char \<Rightarrow> bool" where
  "isWhiteSpace c = ((of_char c :: nat) \<in> {9, 10, 11, 12, 13, 32, 160})"

definition isDigit :: "char \<Rightarrow> bool" where
  "isDigit c = (48 \<le> (of_char c :: nat) \<and> (of_char c :: nat) \<le> 57)"

definition digitVal :: "char \<Rightarrow> int" where
  "digitVal c = int (of_char c) - 48"

definition digitsValue :: "string \<Rightarrow> int" where
  "digitsValue Z = foldl (\<lambda>a c. 10 * a + digitVal c) 0 Z"

definition parseInt10 :: "string \<Rightarrow> int option" where
  "parseInt10 inputString =
     (let S = dropWhile isWhiteSpace inputString;
          sign = (if S \<noteq> [] \<and> hd S = CHR ''-'' then - 1 else 1);
          S' = (if S \<noteq> [] \<and> (hd S = CHR ''+'' \<or> hd S = CHR ''-'') then tl S else S);
          Z = takeWhile isDigit S'
      in if Z = [] then None else Some (sign * digitsValue Z))"

text \<open>
  A mathematical integer converts to a finite double exactly when its magnitude is below
  \<open>2 ^ 1024 - 2 ^ 970\<close>; larger ones become \<open>Infinity\<close>. \<open>Number.isFinite(NaN)\<close> is false:
  that is the \<open>None\<close> branch where the function is used.
\<close>

definition Number_isFinite :: "int \<Rightarrow> bool" where
  "Number_isFinite n = (\<bar>n\<bar> < 2 ^ 1024 - 2 ^ 970)"

section \<open>githubClient.ts: the rate-limit aware request wrapper\<close>

text \<open>
  Effects are recorded in a trace: every sleep, every request sent to the remote API and
  every entry to and exit from a collaborator. An asynchronous computation takes the trace
  so far and returns its outcome (\<open>Inl\<close> the thrown value, \<open>Inr\<close> the result) with the
  extended trace. What the remote answers may depend on everything that happened before.
  Logging is not modelled.
\<close>

datatype request =
    CreateComment int
  | PullsMerge int string
  | PullsGet int
  | DeleteRef string

datatype event =
    Sleep int
  | Request request
  | Enter string
  | Exit string

type_synonym trace = "event list"

type_synonym 'a io = "trace \<Rightarrow> (jsval + 'a) \<times> trace"

definition sleep :: "int \<Rightarrow> trace \<Rightarrow> trace" where
  "sleep ms t = t @ [Sleep ms]"

text \<open>A request to the remote API: the remote's answer \<open>f\<close> is a function of the history.\<close>

definition octokit :: "(trace \<Rightarrow> jsval + 'a) \<Rightarrow> request \<Rightarrow> 'a io" where
  "octokit f r t = (f t, t @ [Request r])"

definition isRateLimited :: "jsval \<Rightarrow> bool" where
  "isRateLimited err =
     (if \<not> isObject err then False
      else let status = getProp err ''status''
           in status = JNum 403 \<or> status = JNum 429)"

definition DEFAULT_WAIT :: int where
  "DEFAULT_WAIT = 60000"

definition retryAfterMs :: "jsval \<Rightarrow> int" where
  "retryAfterMs err =
     (if \<not> isObject err then DEFAULT_WAIT
      else let headers = getProp err ''response''
           in if \<not> truthy headers then DEFAULT_WAIT
              else let raw = getProp headers ''retry-after''
                   in (case raw of
                         JStr s \<Rightarrow>
                           (case parseInt10 s of
                              Some seconds \<Rightarrow>
                                if Number_isFinite seconds then seconds * 1000
                                else DEFAULT_WAIT
                            | None \<Rightarrow> DEFAULT_WAIT)
                       | _ \<Rightarrow> DEFAULT_WAIT))"

definition withRateLimit :: "string \<Rightarrow> 'a io \<Rightarrow> 'a io" where
  "withRateLimit label fn t =
     (case fn t of
        (Inr v, t1) \<Rightarrow> (Inr v, t1)
      | (Inl err, t1) \<Rightarrow>
          if isRateLimited err
          then (let waitMs = retryAfterMs err in fn (sleep waitMs t1))
          else (Inl err, t1))"

section \<open>commentManager.ts and mergeManager.ts\<close>

text \<open>
  The remote API and the process-wide settings a call depends on. Each endpoint answers as
  a function of the history and of the request; \<open>clock\<close> is \<open>nowISO()\<close>; \<open>yoloMode\<close> is
  \<open>config.yoloMode\<close>. Owner and repository are constants of every request and are left
  out, as is the random choice of the comment text. The field \<open>id\<close> of the response data is
  \<open>id'\<close> here and the field \<open>id\<close> of a \<open>PostedComment\<close> is \<open>commentId\<close>.
\<close>

record comment_data =
  id' :: int
  created_at :: "string option"

record merge_data =
  sha :: string

record pull_data =
  mergeable :: "bool option"

record env =
  createComment :: "trace \<Rightarrow> int \<Rightarrow> jsval + comment_data"
  pullsMerge :: "trace \<Rightarrow> int \<Rightarrow> string \<Rightarrow> jsval + merge_data"
  pullsGet :: "trace \<Rightarrow> int \<Rightarrow> jsval + pull_data"
  deleteRef :: "trace \<Rightarrow> string \<Rightarrow> jsval + unit"
  clock :: "trace \<Rightarrow> string"
  yoloMode :: bool

record PostedComment =
  commentId :: int
  targetNumber :: int
  isPR :: bool
  createdAt :: string

record MergeResult =
  prNumber :: int
  mergeSha :: string
  yolo :: bool
  mergedAt :: string
  deletedBranch :: string

text \<open>
  \<open>commentOnPR\<close>, the comment-posting collaborator. The trace records when it is entered
  and when it is left (by return or by throw).
\<close>

definition commentOnPR :: "env \<Rightarrow> int \<Rightarrow> PostedComment io" where
  "commentOnPR e prNum t =
     (case withRateLimit ''comment-pr''
             (octokit (\<lambda>h. createComment e h prNum) (CreateComment prNum))
             (t @ [Enter ''commentOnPR'']) of
        (Inl err, t1) \<Rightarrow> (Inl err, t1 @ [Exit ''commentOnPR''])
      | (Inr d, t1) \<Rightarrow>
          (Inr \<lparr>commentId = id' d, targetNumber = prNum, isPR = True,
                createdAt = (case created_at d of Some s \<Rightarrow> s | None \<Rightarrow> clock e t1)\<rparr>,
           t1 @ [Exit ''commentOnPR'']))"

text \<open>\<open>deleteBranch\<close>: a failure of the request is caught and dropped.\<close>

definition deleteBranch :: "env \<Rightarrow> string \<Rightarrow> unit io" where
  "deleteBranch e branchName t =
     (case octokit (\<lambda>h. deleteRef e h branchName) (DeleteRef branchName) t of
        (r, t1) \<Rightarrow> (Inr (), t1))"

definition mergePullRequest :: "env \<Rightarrow> int \<Rightarrow> string \<Rightarrow> bool option \<Rightarrow> MergeResult io" where
  "mergePullRequest e prNum branchName yoloArg t =
     (let useYolo = (case yoloArg of Some y \<Rightarrow> y | None \<Rightarrow> yoloMode e);
          commit_message =
            (if useYolo then ''Merged without review (YOLO).'' else ''Merged after review.'')
      in case (if \<not> useYolo
               then (case commentOnPR e prNum (sleep 1500 t) of
                       (Inl err, t1) \<Rightarrow> (Inl err, t1)
                     | (Inr c, t1) \<Rightarrow> (Inr (), t1))
               else (Inr (), t)) of
           (Inl err, t1) \<Rightarrow> (Inl err, t1)
         | (Inr u, t1) \<Rightarrow>
             (case withRateLimit ''merge-pr''
                     (octokit (\<lambda>h. pullsMerge e h prNum commit_message)
                        (PullsMerge prNum commit_message))
                     (sleep 1000 t1) of
                (Inl err, t2) \<Rightarrow> (Inl err, t2)
              | (Inr d, t2) \<Rightarrow>
                  (case deleteBranch e branchName t2 of
                     (r, t3) \<Rightarrow>
                       (Inr \<lparr>prNumber = prNum, mergeSha = sha d, yolo = useYolo,
                             mergedAt = clock e t3, deletedBranch = branchName\<rparr>,
                        t3))))"

definition MAX_ATTEMPTS :: nat where
  "MAX_ATTEMPTS = 5"

definition DELAY_MS :: int where
  "DELAY_MS = 3000"

text \<open>The \<open>for\<close> loop of \<open>isMergeable\<close>, from the attempt it is about to make.\<close>

function isMergeable_loop :: "env \<Rightarrow> int \<Rightarrow> nat \<Rightarrow> bool io" where
  "isMergeable_loop e prNum attempt t =
     (if attempt \<le> MAX_ATTEMPTS
      then (case withRateLimit ''check-mergeable''
                   (octokit (\<lambda>h. pullsGet e h prNum) (PullsGet prNum)) t of
              (Inl err, t1) \<Rightarrow> (Inl err, t1)
            | (Inr d, t1) \<Rightarrow>
                if mergeable d = Some True then (Inr True, t1)
                else if mergeable d = Some False then (Inr False, t1)
                else isMergeable_loop e prNum (attempt + 1) (sleep DELAY_MS t1))
      else (Inr False, t))"
  by pat_completeness auto
termination
  by (relation "measure (\<lambda>(e, prNum, attempt, t). Suc MAX_ATTEMPTS - attempt)") auto

declare isMergeable_loop.simps [simp del]

definition isMergeable :: "env \<Rightarrow> int \<Rightarrow> bool io" where
  "isMergeable e prNum t = isMergeable_loop e prNum 1 t"

section \<open>analytics.ts\<close>

text \<open>
  Counters and durations are whole numbers (\<open>int\<close>); averages are exact quotients
  (\<open>rat\<close>). The wall clock is an argument: \<open>now\<close> is the value of
  \<open>new Date().toISOString()\<close> at the call.
\<close>

record RunAccumulator =
  startedAt :: string
  issuesCreated :: int
  issuesClosed :: int
  prsOpened :: int
  prsMerged :: int
  yoloMerges :: int
  commentsPosted :: int
  coAuthoredCommits :: int
  issueToFirstCommentMs :: "int list"
  prOpenToMergeMs :: "int list"

text \<open>A \<open>RunRecord\<close> has the fields of the accumulator and \<open>finishedAt\<close>.\<close>

record RunRecord = RunAccumulator +
  finishedAt :: string

record AnalyticsData =
  version :: int
  runs :: "RunRecord list"

text \<open>
  The analytics file on disk: absent, present but not readable as an \<open>AnalyticsData\<close>
  (not JSON, or \<open>runs\<close> is not an array), or holding one. Writing the file always succeeds
  in the model.
\<close>

datatype disk = NoFile | Malformed | Json AnalyticsData

text \<open>The module state: the variable \<open>current\<close> and the file at \<open>config.analyticsPath\<close>.\<close>

record analytics =
  current :: "RunAccumulator option"
  persisted :: disk

datatype error = Error string

type_synonym 'a result = "(error + 'a) \<times> analytics"

text \<open>
  An ISO-8601 timestamp, given by the epoch milliseconds that \<open>new Date(s).getTime()\<close>
  reads from it. A string that is not a date has no time value and is not a timestamp.
\<close>

datatype timestamp = Timestamp int

fun getTime :: "timestamp \<Rightarrow> int" where
  "getTime (Timestamp ms) = ms"

definition emptyData :: AnalyticsData where
  "emptyData = \<lparr>version = 1, runs = []\<rparr>"

definition loadPersistedData :: "disk \<Rightarrow> AnalyticsData" where
  "loadPersistedData d =
     (case d of
        Json parsed \<Rightarrow> if version parsed \<noteq> 0 then parsed else emptyData
      | _ \<Rightarrow> emptyData)"

definition savePersistedData :: "AnalyticsData \<Rightarrow> analytics \<Rightarrow> analytics" where
  "savePersistedData data st = st\<lparr>persisted := Json data\<rparr>"

definition startRun :: "string \<Rightarrow> analytics \<Rightarrow> unit result" where
  "startRun now st =
     (Inr (),
      st\<lparr>current := Some
            \<lparr>startedAt = now, issuesCreated = 0, issuesClosed = 0, prsOpened = 0,
             prsMerged = 0, yoloMerges = 0, commentsPosted = 0, coAuthoredCommits = 0,
             issueToFirstCommentMs = [], prOpenToMergeMs = []\<rparr>\<rparr>)"

definition endRun :: "string \<Rightarrow> analytics \<Rightarrow> RunRecord result" where
  "endRun now st =
     (case current st of
        None \<Rightarrow> (Inl (Error ''endRun called before startRun''), st)
      | Some cur \<Rightarrow>
          (let finished = RunAccumulator.extend cur (RunRecord.fields now);
               allData = loadPersistedData (persisted st);
               allData' = allData\<lparr>runs := runs allData @ [finished]\<rparr>;
               st' = savePersistedData allData' st
           in (Inr finished, st'\<lparr>current := None\<rparr>)))"

definition ensureRunning :: "analytics \<Rightarrow> error + RunAccumulator" where
  "ensureRunning st =
     (case current st of
        None \<Rightarrow> Inl (Error ''Analytics: no run in progress. Call startRun() first.'')
      | Some acc \<Rightarrow> Inr acc)"

definition recordIssueCreated :: "analytics \<Rightarrow> unit result" where
  "recordIssueCreated st =
     (case ensureRunning st of
        Inl err \<Rightarrow> (Inl err, st)
      | Inr acc \<Rightarrow> (Inr (), st\<lparr>current := Some (acc\<lparr>issuesCreated := issuesCreated acc + 1\<rparr>)\<rparr>))"

definition recordIssueClosed :: "analytics \<Rightarrow> unit result" where
  "recordIssueClosed st =
     (case ensureRunning st of
        Inl err \<Rightarrow> (Inl err, st)
      | Inr acc \<Rightarrow> (Inr (), st\<lparr>current := Some (acc\<lparr>issuesClosed := issuesClosed acc + 1\<rparr>)\<rparr>))"

definition recordPROpened :: "analytics \<Rightarrow> unit result" where
  "recordPROpened st =
     (case ensureRunning st of
        Inl err \<Rightarrow> (Inl err, st)
      | Inr acc \<Rightarrow> (Inr (), st\<lparr>current := Some (acc\<lparr>prsOpened := prsOpened acc + 1\<rparr>)\<rparr>))"

definition recordPRMerged :: "bool \<Rightarrow> analytics \<Rightarrow> unit result" where
  "recordPRMerged yoloFlag st =
     (case ensureRunning st of
        Inl err \<Rightarrow> (Inl err, st)
      | Inr acc \<Rightarrow>
          (let acc1 = acc\<lparr>prsMerged := prsMerged acc + 1\<rparr>;
               acc2 = (if yoloFlag then acc1\<lparr>yoloMerges := yoloMerges acc1 + 1\<rparr> else acc1)
           in (Inr (), st\<lparr>current := Some acc2\<rparr>)))"

definition recordCommentPosted :: "analytics \<Rightarrow> unit result" where
  "recordCommentPosted st =
     (case ensureRunning st of
        Inl err \<Rightarrow> (Inl err, st)
      | Inr acc \<Rightarrow> (Inr (), st\<lparr>current := Some (acc\<lparr>commentsPosted := commentsPosted acc + 1\<rparr>)\<rparr>))"

definition recordCoAuthoredCommit :: "analytics \<Rightarrow> unit result" where
  "recordCoAuthoredCommit st =
     (case ensureRunning st of
        Inl err \<Rightarrow> (Inl err, st)
      | Inr acc \<Rightarrow>
          (Inr (), st\<lparr>current := Some (acc\<lparr>coAuthoredCommits := coAuthoredCommits acc + 1\<rparr>)\<rparr>))"

definition recordIssueToComment :: "timestamp \<Rightarrow> timestamp \<Rightarrow> analytics \<Rightarrow> unit result" where
  "recordIssueToComment issueCreatedAt commentCreatedAt st =
     (let ms = getTime commentCreatedAt - getTime issueCreatedAt
      in case ensureRunning st of
           Inl err \<Rightarrow> (Inl err, st)
         | Inr acc \<Rightarrow>
             (Inr (),
              st\<lparr>current := Some
                    (acc\<lparr>issueToFirstCommentMs := issueToFirstCommentMs acc @ [max ms 0]\<rparr>)\<rparr>))"

definition recordPRToMerge :: "timestamp \<Rightarrow> timestamp \<Rightarrow> analytics \<Rightarrow> unit result" where
  "recordPRToMerge prCreatedAt mergedAtArg st =
     (let ms = getTime mergedAtArg - getTime prCreatedAt
      in case ensureRunning st of
           Inl err \<Rightarrow> (Inl err, st)
         | Inr acc \<Rightarrow>
             (Inr (),
              st\<lparr>current := Some (acc\<lparr>prOpenToMergeMs := prOpenToMergeMs acc @ [max ms 0]\<rparr>)\<rparr>))"

subsection \<open>Reporting\<close>

record AggregateStats =
  totalRuns :: nat
  totalIssuesCreated :: int
  totalIssuesClosed :: int
  totalPRsOpened :: int
  totalPRsMerged :: int
  totalYoloMerges :: int
  totalComments :: int
  totalCoAuthoredCommits :: int
  avgIssueToCommentMs :: rat
  avgPRToMergeMs :: rat

text \<open>\<open>sum\<close>: \<open>nums.reduce((a, b) => a + b, 0)\<close>, a left fold.\<close>

definition sum_nums :: "int list \<Rightarrow> int" where
  "sum_nums nums = foldl (\<lambda>a b. a + b) 0 nums"

definition avg :: "int list \<Rightarrow> rat" where
  "avg nums = (if length nums = 0 then 0 else of_int (sum_nums nums) / of_nat (length nums))"

definition getAggregateStats :: "disk \<Rightarrow> AggregateStats" where
  "getAggregateStats d =
     (let data = loadPersistedData d;
          rs = runs data;
          allIssueToComment = concat (map (\<lambda>r. issueToFirstCommentMs r) rs);
          allPRToMerge = concat (map (\<lambda>r. prOpenToMergeMs r) rs)
      in \<lparr>totalRuns = length rs,
          totalIssuesCreated = sum_nums (map (\<lambda>r. issuesCreated r) rs),
          totalIssuesClosed = sum_nums (map (\<lambda>r. issuesClosed r) rs),
          totalPRsOpened = sum_nums (map (\<lambda>r. prsOpened r) rs),
          totalPRsMerged = sum_nums (map (\<lambda>r. prsMerged r) rs),
          totalYoloMerges = sum_nums (map (\<lambda>r. yoloMerges r) rs),
          totalComments = sum_nums (map (\<lambda>r. commentsPosted r) rs),
          totalCoAuthoredCommits = sum_nums (map (\<lambda>r. coAuthoredCommits r) rs),
          avgIssueToCommentMs = avg allIssueToComment,
          avgPRToMergeMs = avg allPRToMerge\<rparr>)"

text \<open>
  Template-literal rendering of a whole number: decimal digits, with a minus sign below
  zero. (JavaScript switches to exponent notation from \<open>10 ^ 21\<close> on; such values are
  outside the model.)
\<close>

fun string_of_nat :: "nat \<Rightarrow> string" where
  "string_of_nat n =
     (if n < 10 then [char_of (48 + n)]
      else string_of_nat (n div 10) @ [char_of (48 + n mod 10)])"

declare string_of_nat.simps [simp del]

definition string_of_int :: "int \<Rightarrow> string" where
  "string_of_int i = (if i < 0 then CHR ''-'' # string_of_nat (nat (- i)) else string_of_nat (nat i))"

text \<open>\<open>Math.round\<close>: the nearest whole number, halves rounded up.\<close>

definition Math_round :: "rat \<Rightarrow> int" where
  "Math_round x = \<lfloor>x + 1 / 2\<rfloor>"

text \<open>
  \<open>formatMs\<close>. Where \<open>minutes\<close> and \<open>remaining\<close> are computed, \<open>seconds\<close> is at least 60, so
  \<open>Math.floor(seconds / 60)\<close> and \<open>seconds % 60\<close> are \<open>div\<close> and \<open>mod\<close>.
\<close>

definition formatMs :: "rat \<Rightarrow> string" where
  "formatMs ms =
     (if ms = 0 then ''n/a''
      else let seconds = Math_round (ms / 1000)
           in if seconds < 60 then string_of_int seconds @ ''s''
              else let minutes = seconds div 60;
                       remaining = seconds mod 60
                   in string_of_int minutes @ ''m '' @ string_of_int remaining @ ''s'')"

text \<open>
  \<open>printConsoleSummary\<close>: the lines written to the console, in order. The two characters
  outside ASCII are given by their UTF-8 bytes.
\<close>

definition emdash :: string where
  "emdash = [char_of (0xE2 :: nat), char_of (0x80 :: nat), char_of (0x94 :: nat)]"

definition arrow :: string where
  "arrow = [char_of (0xE2 :: nat), char_of (0x86 :: nat), char_of (0x92 :: nat)]"

definition printConsoleSummary :: "disk \<Rightarrow> string list" where
  "printConsoleSummary d =
     (let stats = getAggregateStats d
      in [[CHR 0x0A] @ ''========================================'',
          ''  GitHub Activity Orchestrator '' @ emdash @ '' Stats  '',
          ''========================================'',
          ''  Total runs .............. '' @ string_of_int (int (totalRuns stats)),
          ''  Issues created .......... '' @ string_of_int (totalIssuesCreated stats),
          ''  Issues closed ........... '' @ string_of_int (totalIssuesClosed stats),
          ''  PRs opened .............. '' @ string_of_int (totalPRsOpened stats),
          ''  PRs merged .............. '' @ string_of_int (totalPRsMerged stats),
          ''  YOLO merges ............. '' @ string_of_int (totalYoloMerges stats),
          ''  Comments posted ......... '' @ string_of_int (totalComments stats),
          ''  Co-authored commits ..... '' @ string_of_int (totalCoAuthoredCommits stats),
          ''  Avg issue'' @ arrow @ ''comment ....... '' @ formatMs (avgIssueToCommentMs stats),
          ''  Avg PR'' @ arrow @ ''merge ............ '' @ formatMs (avgPRToMergeMs stats),
          ''========================================'' @ [CHR 0x0A]])"

section \<open>Vocabulary for the statements\<close>

text \<open>
  The recording operations of analytics.ts as one datatype, so that a statement can range
  over all of them; \<open>applyOp\<close> calls the operation named.
\<close>

datatype recordOp =
    OpIssueCreated
  | OpIssueClosed
  | OpPROpened
  | OpPRMerged bool
  | OpCommentPosted
  | OpCoAuthoredCommit
  | OpIssueToComment timestamp timestamp
  | OpPRToMerge timestamp timestamp

fun applyOp :: "recordOp \<Rightarrow> analytics \<Rightarrow> unit result" where
  "applyOp OpIssueCreated st = recordIssueCreated st"
| "applyOp OpIssueClosed st = recordIssueClosed st"
| "applyOp OpPROpened st = recordPROpened st"
| "applyOp (OpPRMerged y) st = recordPRMerged y st"
| "applyOp OpCommentPosted st = recordCommentPosted st"
| "applyOp OpCoAuthoredCommit st = recordCoAuthoredCommit st"
| "applyOp (OpIssueToComment a b) st = recordIssueToComment a b st"
| "applyOp (OpPRToMerge a b) st = recordPRToMerge a b st"

text \<open>A sequence of recording calls, one after the other on the module state.\<close>

fun runOps :: "recordOp list \<Rightarrow> analytics \<Rightarrow> analytics" where
  "runOps [] st = st"
| "runOps (op # ops) st = runOps ops (snd (applyOp op st))"

text \<open>The fields of the in-flight record, and those in which two records differ.\<close>

datatype field =
    FStartedAt
  | FIssuesCreated
  | FIssuesClosed
  | FPrsOpened
  | FPrsMerged
  | FYoloMerges
  | FCommentsPosted
  | FCoAuthoredCommits
  | FIssueToFirstCommentMs
  | FPrOpenToMergeMs

fun differs :: "RunAccumulator \<Rightarrow> RunAccumulator \<Rightarrow> field \<Rightarrow> bool" where
  "differs a b FStartedAt = (startedAt a \<noteq> startedAt b)"
| "differs a b FIssuesCreated = (issuesCreated a \<noteq> issuesCreated b)"
| "differs a b FIssuesClosed = (issuesClosed a \<noteq> issuesClosed b)"
| "differs a b FPrsOpened = (prsOpened a \<noteq> prsOpened b)"
| "differs a b FPrsMerged = (prsMerged a \<noteq> prsMerged b)"
| "differs a b FYoloMerges = (yoloMerges a \<noteq> yoloMerges b)"
| "differs a b FCommentsPosted = (commentsPosted a \<noteq> commentsPosted b)"
| "differs a b FCoAuthoredCommits = (coAuthoredCommits a \<noteq> coAuthoredCommits b)"
| "differs a b FIssueToFirstCommentMs = (issueToFirstCommentMs a \<noteq> issueToFirstCommentMs b)"
| "differs a b FPrOpenToMergeMs = (prOpenToMergeMs a \<noteq> prOpenToMergeMs b)"

definition allFields :: "field list" where
  "allFields =
     [FStartedAt, FIssuesCreated, FIssuesClosed, FPrsOpened, FPrsMerged, FYoloMerges,
      FCommentsPosted, FCoAuthoredCommits, FIssueToFirstCommentMs, FPrOpenToMergeMs]"

definition changedFields :: "RunAccumulator \<Rightarrow> RunAccumulator \<Rightarrow> field list" where
  "changedFields a b = filter (differs a b) allFields"

text \<open>The fields an operation writes.\<close>

fun written :: "recordOp \<Rightarrow> field list" where
  "written OpIssueCreated = [FIssuesCreated]"
| "written OpIssueClosed = [FIssuesClosed]"
| "written OpPROpened = [FPrsOpened]"
| "written (OpPRMerged y) = (if y then [FPrsMerged, FYoloMerges] else [FPrsMerged])"
| "written OpCommentPosted = [FCommentsPosted]"
| "written OpCoAuthoredCommit = [FCoAuthoredCommits]"
| "written (OpIssueToComment a b) = [FIssueToFirstCommentMs]"
| "written (OpPRToMerge a b) = [FPrOpenToMergeMs]"

text \<open>Every counter and every recorded duration of an in-flight record is at least 0.\<close>

definition nonnegAcc :: "RunAccumulator \<Rightarrow> bool" where
  "nonnegAcc a =
     (0 \<le> issuesCreated a \<and> 0 \<le> issuesClosed a \<and> 0 \<le> prsOpened a \<and> 0 \<le> prsMerged a \<and>
      0 \<le> yoloMerges a \<and> 0 \<le> commentsPosted a \<and> 0 \<le> coAuthoredCommits a \<and>
      list_all (\<lambda>x. 0 \<le> x) (issueToFirstCommentMs a) \<and>
      list_all (\<lambda>x. 0 \<le> x) (prOpenToMergeMs a))"

text \<open>
  Traces. \<open>polled t n k\<close> is the history after \<open>k\<close> polls of pull request \<open>n\<close> that each
  came back undecided, starting from \<open>t\<close>; \<open>pollCount\<close> counts the polls in a trace.
\<close>

definition polled :: "trace \<Rightarrow> int \<Rightarrow> nat \<Rightarrow> trace" where
  "polled t n k = t @ concat (replicate k [Request (PullsGet n), Sleep DELAY_MS])"

definition pollCount :: "int \<Rightarrow> trace \<Rightarrow> nat" where
  "pollCount n tr = length (filter (\<lambda>ev. ev = Request (PullsGet n)) tr)"

definition commentInvocations :: "trace \<Rightarrow> nat" where
  "commentInvocations tr = length (filter (\<lambda>ev. ev = Enter ''commentOnPR'') tr)"

fun isMergeRequest :: "event \<Rightarrow> bool" where
  "isMergeRequest (Request (PullsMerge n m)) = True"
| "isMergeRequest ev = False"

fun isCommentEvent :: "event \<Rightarrow> bool" where
  "isCommentEvent (Request (CreateComment n)) = True"
| "isCommentEvent (Enter c) = (c = ''commentOnPR'')"
| "isCommentEvent (Exit c) = (c = ''commentOnPR'')"
| "isCommentEvent ev = False"

text \<open>
  An example remote: the \<open>k\<close>-th poll of a pull request answers \<open>rs ! k\<close> (undecided once
  the list is used up), comments and merges fail with the scripted failures while there
  are any, and then succeed.
\<close>

definition scripted :: "bool option list \<Rightarrow> jsval list \<Rightarrow> jsval list \<Rightarrow> bool \<Rightarrow> env" where
  "scripted rs commentFailures mergeFailures y =
     \<lparr>createComment = (\<lambda>h n.
        let k = length (filter (\<lambda>ev. ev = Request (CreateComment n)) h)
        in if k < length commentFailures then Inl (commentFailures ! k)
           else Inr \<lparr>id' = 1000 + int k, created_at = None\<rparr>),
      pullsMerge = (\<lambda>h n m.
        let k = length (filter (\<lambda>ev. ev = Request (PullsMerge n m)) h)
        in if k < length mergeFailures then Inl (mergeFailures ! k)
           else Inr \<lparr>sha = ''9f2c1e7''\<rparr>),
      pullsGet = (\<lambda>h n.
        let k = pollCount n h
        in Inr \<lparr>mergeable = (if k < length rs then rs ! k else None)\<rparr>),
      deleteRef = (\<lambda>h b. Inr ()),
      clock = (\<lambda>h. ''2024-05-01T10:00:00.000Z''),
      yoloMode = y\<rparr>"

definition throttled :: jsval where
  "throttled = JObj [(''status'', JNum 429), (''response'', JObj [(''retry-after'', JStr ''7'')])]"

definition forbidden :: jsval where
  "forbidden = JObj [(''status'', JNum 403)]"

definition serverError :: jsval where
  "serverError = JObj [(''status'', JNum 500), (''response'', JObj [(''retry-after'', JStr ''7'')])]"

text \<open>
  The failure the HTTP client raises for a throttled request: the status is on the error,
  and the server's \<open>Retry-After\<close> header (here 30 seconds) is among the \<open>headers\<close> of its
  \<open>response\<close>.
\<close>

definition octokitThrottled :: jsval where
  "octokitThrottled =
     JObj [(''name'', JStr ''HttpError''),
           (''status'', JNum 429),
           (''response'',
            JObj [(''status'', JNum 429),
                  (''url'', JStr ''https://api.github.com/repos/o/r/pulls/7/merge''),
                  (''headers'', JObj [(''retry-after'', JStr ''30'')]),
                  (''data'', JObj [(''message'', JStr ''You have exceeded a secondary rate limit'')])])]"

text \<open>A thunk that fails with the scripted failures, one per execution, and then succeeds.\<close>

definition flaky :: "jsval list \<Rightarrow> int io" where
  "flaky failures =
     octokit (\<lambda>h. let k = pollCount 1 h
                  in if k < length failures then Inl (failures ! k) else Inr 42)
       (PullsGet 1)"

definition skewOps :: "recordOp list" where
  "skewOps =
     [OpIssueCreated, OpIssueToComment (Timestamp 5000) (Timestamp 3000), OpPRMerged True,
      OpPRToMerge (Timestamp 1000) (Timestamp 8000)]"

text \<open>Example states.\<close>

definition idle :: analytics where
  "idle = \<lparr>current = None, persisted = NoFile\<rparr>"

definition busyAcc :: RunAccumulator where
  "busyAcc =
     \<lparr>startedAt = ''2024-05-01T10:00:00.000Z'', issuesCreated = 2, issuesClosed = 1,
      prsOpened = 2, prsMerged = 1, yoloMerges = 0, commentsPosted = 3,
      coAuthoredCommits = 0, issueToFirstCommentMs = [1200, 800], prOpenToMergeMs = [9000]\<rparr>"

definition busy :: analytics where
  "busy = \<lparr>current = Some busyAcc, persisted = NoFile\<rparr>"

definition pastRun :: RunRecord where
  "pastRun =
     \<lparr>startedAt = ''2024-04-30T10:00:00.000Z'', issuesCreated = 3, issuesClosed = 3,
      prsOpened = 3, prsMerged = 2, yoloMerges = 1, commentsPosted = 6,
      coAuthoredCommits = 1, issueToFirstCommentMs = [1000], prOpenToMergeMs = [],
      finishedAt = ''2024-04-30T10:05:00.000Z''\<rparr>"

definition history :: AnalyticsData where
  "history = \<lparr>version = 1, runs = [pastRun]\<rparr>"

definition busyStored :: analytics where
  "busyStored = \<lparr>current = Some busyAcc, persisted = Json history\<rparr>"

text \<open>
  Two more stores: one whose only run recorded no latency, and one whose only run recorded
  latencies that average to 90000 ms and to 59499 ms.
\<close>

definition quietRun :: RunRecord where
  "quietRun =
     \<lparr>startedAt = ''2024-04-29T10:00:00.000Z'', issuesCreated = 1, issuesClosed = 0,
      prsOpened = 0, prsMerged = 0, yoloMerges = 0, commentsPosted = 0,
      coAuthoredCommits = 0, issueToFirstCommentMs = [], prOpenToMergeMs = [],
      finishedAt = ''2024-04-29T10:01:00.000Z''\<rparr>"

definition quietHistory :: AnalyticsData where
  "quietHistory = \<lparr>version = 1, runs = [quietRun]\<rparr>"

definition slowRun :: RunRecord where
  "slowRun =
     \<lparr>startedAt = ''2024-04-28T10:00:00.000Z'', issuesCreated = 2, issuesClosed = 2,
      prsOpened = 2, prsMerged = 2, yoloMerges = 0, commentsPosted = 4,
      coAuthoredCommits = 0, issueToFirstCommentMs = [60000, 120000],
      prOpenToMergeMs = [59000, 59998],
      finishedAt = ''2024-04-28T10:09:00.000Z''\<rparr>"

definition slowHistory :: AnalyticsData where
  "slowHistory = \<lparr>version = 1, runs = [slowRun]\<rparr>"

section \<open>Auxiliary facts\<close>

lemmas record_defs =
  recordIssueCreated_def recordIssueClosed_def recordPROpened_def recordPRMerged_def
  recordCommentPosted_def recordCoAuthoredCommit_def recordIssueToComment_def
  recordPRToMerge_def

lemma isRateLimited_iff:
  "isRateLimited e \<longleftrightarrow>
     (\<exists>ps. e = JObj ps \<and>
        (map_of ps ''status'' = Some (JNum 403) \<or> map_of ps ''status'' = Some (JNum 429)))"
  by (cases e) (auto simp: isRateLimited_def Let_def split: option.splits)

lemma isRateLimited_examples:
  "isRateLimited throttled" "isRateLimited forbidden" "\<not> isRateLimited serverError"
  by (simp_all add: isRateLimited_def throttled_def forbidden_def serverError_def)

lemma parseInt10_seven: "parseInt10 ''7'' = Some 7"
  by code_simp

lemma retryAfterMs_examples:
  "retryAfterMs throttled = 7000" "retryAfterMs forbidden = 60000"
  by (simp_all add: retryAfterMs_def throttled_def forbidden_def DEFAULT_WAIT_def
        parseInt10_seven Number_isFinite_def)

lemma withRateLimit_octokit_ok:
  "f t = Inr v \<Longrightarrow> withRateLimit l (octokit f r) t = (Inr v, t @ [Request r])"
  by (simp add: withRateLimit_def octokit_def)

lemma withRateLimit_octokit_shape:
  "\<exists>res w. withRateLimit l (octokit f r) t = (res, t @ [Request r]) \<or>
           withRateLimit l (octokit f r) t = (res, t @ [Request r, Sleep w, Request r])"
  by (cases "f t") (auto simp: withRateLimit_def octokit_def sleep_def Let_def)

lemma withRateLimit_octokit_cases:
  obtains res where "withRateLimit l (octokit f r) t = (res, t @ [Request r])"
  | res w where "withRateLimit l (octokit f r) t = (res, t @ [Request r, Sleep w, Request r])"
  using withRateLimit_octokit_shape [of l f r t] by blast

lemma flaky_run:
  "flaky fs h =
     ((if pollCount 1 h < length fs then Inl (fs ! pollCount 1 h) else Inr 42),
      h @ [Request (PullsGet 1)])"
  by (simp add: flaky_def octokit_def Let_def)

section \<open>The rate-limited executor\<close>

text \<open>
  Claim C1. A failure is a throttling signal exactly when it is an object whose \<open>status\<close>
  is the number 403 or 429. For every thunk \<open>fn\<close> and every history \<open>t\<close>: a first
  execution that succeeds is returned as it is; a first failure that is not a throttling
  signal is propagated as it is, with the trace the first execution left (no sleep, no
  second execution); after a first failure that is a throttling signal the wrapper sleeps
  once, for \<open>retryAfterMs\<close> of that failure, executes the thunk once more and returns
  whatever that second execution gives, success or failure, with the trace it leaves:
  there is no third execution.
\<close>

theorem withRateLimit_single_retry:
  "(isRateLimited e \<longleftrightarrow>
      (\<exists>ps. e = JObj ps \<and>
         (map_of ps ''status'' = Some (JNum 403) \<or> map_of ps ''status'' = Some (JNum 429)))) \<and>
   (fn t = (Inr v, t1) \<longrightarrow> withRateLimit l fn t = (Inr v, t1)) \<and>
   (fn t = (Inl e, t1) \<and> \<not> isRateLimited e \<longrightarrow> withRateLimit l fn t = (Inl e, t1)) \<and>
   (fn t = (Inl e, t1) \<and> isRateLimited e \<longrightarrow>
      withRateLimit l fn t = fn (t1 @ [Sleep (retryAfterMs e)]))"
  using isRateLimited_iff [of e] by (auto simp: withRateLimit_def sleep_def)

text \<open>
  The four cases on a thunk that counts its executions in the trace: throttled once and
  then successful (two executions, one sleep of 7 s), throttled and then refused (the
  second failure comes back, still two executions), a server error (one execution), and
  an immediate success.
\<close>

theorem withRateLimit_single_retry_witness:
  "withRateLimit ''get-repo'' (flaky [throttled]) [] =
     (Inr 42, [Request (PullsGet 1), Sleep 7000, Request (PullsGet 1)]) \<and>
   withRateLimit ''get-repo'' (flaky [throttled, forbidden]) [] =
     (Inl forbidden, [Request (PullsGet 1), Sleep 7000, Request (PullsGet 1)]) \<and>
   withRateLimit ''get-repo'' (flaky [serverError]) [] =
     (Inl serverError, [Request (PullsGet 1)]) \<and>
   withRateLimit ''get-repo'' (flaky []) [] = (Inr 42, [Request (PullsGet 1)])"
  using
    withRateLimit_single_retry [where fn = "flaky [throttled]" and t = "[]" and e = throttled
      and ?t1.0 = "[Request (PullsGet 1)]" and l = "''get-repo''", THEN conjunct2]
    withRateLimit_single_retry [where fn = "flaky [throttled, forbidden]" and t = "[]"
      and e = throttled and ?t1.0 = "[Request (PullsGet 1)]" and l = "''get-repo''",
      THEN conjunct2]
    withRateLimit_single_retry [where fn = "flaky [serverError]" and t = "[]"
      and e = serverError and ?t1.0 = "[Request (PullsGet 1)]" and l = "''get-repo''",
      THEN conjunct2]
    withRateLimit_single_retry [where fn = "flaky []" and t = "[]" and v = 42
      and ?t1.0 = "[Request (PullsGet 1)]" and l = "''get-repo''", THEN conjunct2]
  by (simp add: flaky_run pollCount_def isRateLimited_examples retryAfterMs_examples)

lemma digit_char: "d < 10 \<Longrightarrow> isDigit (char_of (48 + d)) \<and> digitVal (char_of (48 + d)) = int d \<and>
   \<not> isWhiteSpace (char_of (48 + d)) \<and> char_of (48 + d) \<noteq> CHR ''-'' \<and> char_of (48 + d) \<noteq> CHR ''+''"
proof -
  assume d: "d < 10"
  then have m: "(48 + d) mod 256 = 48 + d" by simp
  have oc: "of_char (char_of (48 + d) :: char) = 48 + d"
    using m by (simp add: of_char_of)
  have "(of_char (CHR ''-'') :: nat) = 45" "(of_char (CHR ''+'') :: nat) = 43" by simp_all
  have nm: "char_of (48 + d) \<noteq> CHR ''-''"
  proof
    assume "char_of (48 + d) = CHR ''-''"
    then have "(of_char (char_of (48 + d) :: char) :: nat) = of_char (CHR ''-'')" by simp
    with oc show False by simp
  qed
  have np: "char_of (48 + d) \<noteq> CHR ''+''"
  proof
    assume "char_of (48 + d) = CHR ''+''"
    then have "(of_char (char_of (48 + d) :: char) :: nat) = of_char (CHR ''+'')" by simp
    with oc show False by simp
  qed
  from nm np oc d show ?thesis
    by (simp add: isDigit_def digitVal_def isWhiteSpace_def)
qed
lemma digitsValue_snoc: "digitsValue (xs @ [c]) = 10 * digitsValue xs + digitVal c"
  by (simp add: digitsValue_def)

lemma string_of_nat_digits:
  "string_of_nat n \<noteq> [] \<and> list_all isDigit (string_of_nat n) \<and> digitsValue (string_of_nat n) = int n"
proof (induction n rule: string_of_nat.induct)
  case (1 n)
  show ?case
  proof (cases "n < 10")
    case True
    with digit_char [of n] show ?thesis
      by (simp add: string_of_nat.simps [of n] digitsValue_def)
  next
    case False
    have "n mod 10 < 10" by simp
    moreover have "10 * int (n div 10) + int (n mod 10) = int n" by arith
    ultimately show ?thesis
      using digit_char [of "n mod 10"] 1 [OF False] False
      by (simp add: string_of_nat.simps [of n] digitsValue_snoc)
  qed
qed

lemma takeWhile_all: "list_all P xs \<Longrightarrow> takeWhile P xs = xs"
  by (induction xs) auto

lemma string_of_nat_hd:
  "\<not> isWhiteSpace (hd (string_of_nat n)) \<and> hd (string_of_nat n) \<noteq> CHR ''-'' \<and> hd (string_of_nat n) \<noteq> CHR ''+''"
proof -
  have "string_of_nat n \<noteq> []" "list_all isDigit (string_of_nat n)"
    using string_of_nat_digits [of n] by simp_all
  then have "isDigit (hd (string_of_nat n))" by (cases "string_of_nat n") simp_all
  then show ?thesis
    by (auto simp: isDigit_def isWhiteSpace_def)
qed

lemma parseInt10_string_of_nat: "parseInt10 (string_of_nat n) = Some (int n)"
proof -
  have ne: "string_of_nat n \<noteq> []" and ds: "list_all isDigit (string_of_nat n)"
    and v: "digitsValue (string_of_nat n) = int n"
    using string_of_nat_digits [of n] by simp_all
  have dw: "dropWhile isWhiteSpace (string_of_nat n) = string_of_nat n"
    using ne string_of_nat_hd [of n] by (cases "string_of_nat n") simp_all
  show ?thesis
    using ne v string_of_nat_hd [of n]
    by (simp add: parseInt10_def Let_def dw takeWhile_all [OF ds])
qed


section \<open>The wait before the retry\<close>

text \<open>
  What \<open>retryAfterMs\<close> computes. It looks for a string under the key \<open>retry-after\<close> in
  the object stored in the failure's \<open>response\<close> property itself. When there is one and
  \<open>parseInt\<close> reads a finite whole number \<open>n\<close> of seconds from it, the wait is \<open>n * 1000\<close>
  milliseconds; in every other case it is 60000 milliseconds. In particular a string
  that is the decimal rendering of \<open>k\<close>, stored there, gives \<open>k * 1000\<close> milliseconds.
  (The product is exact in doubles up to \<open>2 ^ 53\<close>.)
\<close>

lemma retryAfterMs_reads_response:
  "(err = JObj ps \<and> map_of ps ''response'' = Some resp \<and>
      getProp resp ''retry-after'' = JStr s \<and> parseInt10 s = Some n \<and> Number_isFinite n
      \<longrightarrow> retryAfterMs err = n * 1000) \<and>
   (\<not> (\<exists>ps resp s n. err = JObj ps \<and> map_of ps ''response'' = Some resp \<and>
          getProp resp ''retry-after'' = JStr s \<and> parseInt10 s = Some n \<and> Number_isFinite n)
      \<longrightarrow> retryAfterMs err = 60000) \<and>
   (int k < 2 ^ 1024 - 2 ^ 970 \<longrightarrow>
      retryAfterMs
        (JObj [(''status'', JNum 429),
               (''response'', JObj [(''retry-after'', JStr (string_of_nat k))])]) =
      int k * 1000)"
proof (intro conjI impI)
  assume h: "err = JObj ps \<and> map_of ps ''response'' = Some resp \<and>
      getProp resp ''retry-after'' = JStr s \<and> parseInt10 s = Some n \<and> Number_isFinite n"
  then have "truthy resp" by (cases resp) auto
  with h show "retryAfterMs err = n * 1000"
    by (simp add: retryAfterMs_def)
next
  assume h: "\<not> (\<exists>ps resp s n. err = JObj ps \<and> map_of ps ''response'' = Some resp \<and>
          getProp resp ''retry-after'' = JStr s \<and> parseInt10 s = Some n \<and> Number_isFinite n)"
  show "retryAfterMs err = 60000"
  proof (cases err)
    case (JObj ps)
    show ?thesis
    proof (cases "map_of ps ''response''")
      case None
      with JObj show ?thesis by (simp add: retryAfterMs_def DEFAULT_WAIT_def)
    next
      case (Some resp)
      with JObj h have "\<And>s n. getProp resp ''retry-after'' = JStr s \<Longrightarrow>
          parseInt10 s = Some n \<Longrightarrow> \<not> Number_isFinite n"
        by blast
      with JObj Some show ?thesis
        by (auto simp: retryAfterMs_def DEFAULT_WAIT_def Let_def
              split: jsval.splits option.splits)
    qed
  qed (simp_all add: retryAfterMs_def DEFAULT_WAIT_def)
next
  assume "int k < 2 ^ 1024 - 2 ^ 970"
  then show "retryAfterMs
        (JObj [(''status'', JNum 429),
               (''response'', JObj [(''retry-after'', JStr (string_of_nat k))])]) =
      int k * 1000"
    by (simp add: retryAfterMs_def parseInt10_string_of_nat Number_isFinite_def)
qed

text \<open>
  A string \<open>7\<close> found there gives 7000 ms; a failure without a \<open>response\<close> gives the
  default; so does a string that does not start with a number, and so does a failure
  whose \<open>response\<close> holds the string only inside a nested \<open>headers\<close> object.
\<close>

lemma retryAfterMs_reads_response_examples:
  "parseInt10 ''7'' = Some 7 \<and> Number_isFinite 7 \<and> retryAfterMs throttled = 7000 \<and>
   retryAfterMs forbidden = 60000 \<and>
   retryAfterMs (JObj [(''status'', JNum 429),
                       (''response'', JObj [(''retry-after'', JStr ''soon'')])]) = 60000 \<and>
   retryAfterMs (JObj [(''status'', JNum 429),
                       (''response'', JObj [(''retry-after'', JStr (string_of_nat 30))])]) = 30000 \<and>
   retryAfterMs (JObj [(''status'', JNum 429),
                       (''response'',
                        JObj [(''headers'', JObj [(''retry-after'', JStr ''30'')])])]) = 60000"
proof -
  have p: "parseInt10 ''soon'' = None" by code_simp
  have f: "Number_isFinite 7" by (simp add: Number_isFinite_def)
  from
    retryAfterMs_reads_response [where err = throttled
      and ps = "[(''status'', JNum 429), (''response'', JObj [(''retry-after'', JStr ''7'')])]"
      and resp = "JObj [(''retry-after'', JStr ''7'')]" and s = "''7''" and n = 7 and k = 30]
    retryAfterMs_reads_response [where err = forbidden, THEN conjunct2, THEN conjunct1]
    retryAfterMs_reads_response [where
      err = "JObj [(''status'', JNum 429), (''response'', JObj [(''retry-after'', JStr ''soon'')])]",
      THEN conjunct2, THEN conjunct1]
    retryAfterMs_reads_response [where
      err = "JObj [(''status'', JNum 429),
                   (''response'', JObj [(''headers'', JObj [(''retry-after'', JStr ''30'')])])]",
      THEN conjunct2, THEN conjunct1]
  show ?thesis
    by (simp add: throttled_def forbidden_def parseInt10_seven f p)
qed

text \<open>
  Claim C9 says that the wait before the retry is the retry-after hint carried by the
  failure, in milliseconds, whenever such a hint is present and parses to a finite whole
  number. \<open>retryAfterMs\<close> is documented to extract \<open>Retry-After\<close> from a rate-limit error
  of the HTTP client and calls the object it searches \<open>headers\<close>, but that object is the
  error's \<open>response\<close>, whose headers are one level further down. So for the failure the
  client raises when the server answers 429 with \<open>Retry-After: 30\<close>, a throttling signal
  whose hint reads 30 seconds, the wait is the default of 60000 ms and not 30000 ms.
\<close>

theorem retryAfterMs_ignores_response_headers:
  "isRateLimited octokitThrottled \<and>
   getProp (getProp (getProp octokitThrottled ''response'') ''headers'') ''retry-after'' =
     JStr ''30'' \<and>
   parseInt10 ''30'' = Some 30 \<and>
   retryAfterMs octokitThrottled = 60000 \<and>
   withRateLimit ''check-mergeable'' (flaky [octokitThrottled]) [] =
     (Inr 42, [Request (PullsGet 1), Sleep 60000, Request (PullsGet 1)])"
proof -
  have p: "parseInt10 ''30'' = Some 30" by code_simp
  have r: "isRateLimited octokitThrottled"
    by (simp add: isRateLimited_def octokitThrottled_def)
  have w: "retryAfterMs octokitThrottled = 60000"
    by (simp add: retryAfterMs_def octokitThrottled_def DEFAULT_WAIT_def)
  have g: "getProp (getProp (getProp octokitThrottled ''response'') ''headers'') ''retry-after'' =
     JStr ''30''"
    by (simp add: octokitThrottled_def)
  have "withRateLimit ''check-mergeable'' (flaky [octokitThrottled]) [] =
     (Inr 42, [Request (PullsGet 1), Sleep 60000, Request (PullsGet 1)])"
    by (simp add: withRateLimit_def flaky_run pollCount_def r w sleep_def)
  with p r w g show ?thesis by simp
qed

section \<open>The analytics accumulator: lifecycle\<close>

text \<open>
  Claim C4 says that \<open>startRun\<close> raises while a run is in flight. It does not: on a state
  with a run in flight that has counted two issues, \<open>startRun\<close> returns normally and the
  in-flight record is replaced by one whose counters are 0.
\<close>

theorem startRun_in_flight_counterexample:
  "current busy = Some busyAcc \<and>
   fst (startRun ''2024-05-01T11:00:00.000Z'' busy) = Inr () \<and>
   current (snd (startRun ''2024-05-01T11:00:00.000Z'' busy)) \<noteq> Some busyAcc \<and>
   map_option issuesCreated (current (snd (startRun ''2024-05-01T11:00:00.000Z'' busy))) =
     Some 0"
  by (simp add: startRun_def busy_def busyAcc_def)

text \<open>
  Claim C4, amended. In every state, with or without a run in flight, \<open>startRun\<close> returns
  normally, leaves the persisted store as it is and sets the in-flight record to a fresh
  one, started now, with every counter 0 and both latency sequences empty; whatever
  \<open>current\<close> held before has no influence on the state after.
\<close>

theorem startRun_replaces_silently:
  "fst (startRun now st) = Inr () \<and>
   persisted (snd (startRun now st)) = persisted st \<and>
   snd (startRun now (st\<lparr>current := c\<rparr>)) = snd (startRun now st) \<and>
   current (snd (startRun now st)) =
     Some \<lparr>startedAt = now, issuesCreated = 0, issuesClosed = 0, prsOpened = 0,
           prsMerged = 0, yoloMerges = 0, commentsPosted = 0, coAuthoredCommits = 0,
           issueToFirstCommentMs = [], prOpenToMergeMs = []\<rparr>"
  by (simp add: startRun_def)

text \<open>
  Claim C8. With no run in flight, every recording operation and \<open>endRun\<close> return an
  error and the state after is the state before.
\<close>

theorem no_run_fails_loudly:
  "current st = None \<longrightarrow>
     applyOp op st =
       (Inl (Error ''Analytics: no run in progress. Call startRun() first.''), st) \<and>
     endRun now st = (Inl (Error ''endRun called before startRun''), st)"
  by (cases op) (auto simp: record_defs ensureRunning_def endRun_def Let_def)

theorem no_run_fails_loudly_witness:
  "current idle = None \<and>
   applyOp (OpPRMerged True) idle =
     (Inl (Error ''Analytics: no run in progress. Call startRun() first.''), idle) \<and>
   endRun ''2024-05-01T11:00:00.000Z'' idle =
     (Inl (Error ''endRun called before startRun''), idle)"
  using no_run_fails_loudly [of idle "OpPRMerged True" "''2024-05-01T11:00:00.000Z''"]
  by (simp add: idle_def)

section \<open>The analytics accumulator: recording\<close>

lemma applyOp_ok: "current st = Some acc \<Longrightarrow> fst (applyOp op st) = Inr ()"
  by (cases op) (simp_all add: record_defs ensureRunning_def Let_def)

lemma applyOp_persisted: "persisted (snd (applyOp op st)) = persisted st"
  by (cases op)
     (simp_all add: record_defs ensureRunning_def Let_def split: sum.splits option.splits)

lemma applyOp_changed:
  "current st = Some acc \<Longrightarrow>
     \<exists>acc'. current (snd (applyOp op st)) = Some acc' \<and> changedFields acc acc' = written op"
  by (cases op)
     (simp_all add: record_defs ensureRunning_def Let_def changedFields_def allFields_def)

text \<open>
  Claim C5 says that every recording operation changes exactly one field. \<open>recordPRMerged\<close>
  with the flag set changes two: \<open>prsMerged\<close> and \<open>yoloMerges\<close>.
\<close>

theorem recordPRMerged_yolo_counterexample:
  "changedFields busyAcc (the (current (snd (recordPRMerged True busy)))) =
     [FPrsMerged, FYoloMerges]"
  by (simp add: recordPRMerged_def ensureRunning_def busy_def busyAcc_def changedFields_def
        allFields_def)

lemma applyOp_effect:
  "current st = Some acc \<Longrightarrow>
     current (snd (applyOp op st)) =
       Some (case op of
               OpIssueCreated \<Rightarrow> acc\<lparr>issuesCreated := issuesCreated acc + 1\<rparr>
             | OpIssueClosed \<Rightarrow> acc\<lparr>issuesClosed := issuesClosed acc + 1\<rparr>
             | OpPROpened \<Rightarrow> acc\<lparr>prsOpened := prsOpened acc + 1\<rparr>
             | OpPRMerged y \<Rightarrow>
                 if y then acc\<lparr>prsMerged := prsMerged acc + 1, yoloMerges := yoloMerges acc + 1\<rparr>
                 else acc\<lparr>prsMerged := prsMerged acc + 1\<rparr>
             | OpCommentPosted \<Rightarrow> acc\<lparr>commentsPosted := commentsPosted acc + 1\<rparr>
             | OpCoAuthoredCommit \<Rightarrow> acc\<lparr>coAuthoredCommits := coAuthoredCommits acc + 1\<rparr>
             | OpIssueToComment a b \<Rightarrow>
                 acc\<lparr>issueToFirstCommentMs :=
                       issueToFirstCommentMs acc @ [max (getTime b - getTime a) 0]\<rparr>
             | OpPRToMerge a b \<Rightarrow>
                 acc\<lparr>prOpenToMergeMs :=
                       prOpenToMergeMs acc @ [max (getTime b - getTime a) 0]\<rparr>)"
  by (cases op) (simp_all add: record_defs ensureRunning_def Let_def)

text \<open>
  Claim C5, amended. With a run in flight, every recording operation returns normally,
  leaves the persisted store as it is, and changes exactly the fields it writes and no
  other field of the in-flight record: one field for every operation except
  \<open>recordPRMerged\<close> called with the flag set, which changes the two fields \<open>prsMerged\<close> and
  \<open>yoloMerges\<close>. What is written is fixed: a counter that is written becomes its old
  value plus 1, and a latency sequence that is written becomes the old sequence followed
  by one duration, the difference of the two time values or 0 when that is negative.
\<close>

theorem record_ops_frame:
  "current st = Some acc \<longrightarrow>
     fst (applyOp op st) = Inr () \<and>
     persisted (snd (applyOp op st)) = persisted st \<and>
     (\<exists>acc'. current (snd (applyOp op st)) = Some acc' \<and>
        changedFields acc acc' = written op) \<and>
     length (written op) = (if op = OpPRMerged True then 2 else 1) \<and>
     current (snd (applyOp op st)) =
       Some (case op of
               OpIssueCreated \<Rightarrow> acc\<lparr>issuesCreated := issuesCreated acc + 1\<rparr>
             | OpIssueClosed \<Rightarrow> acc\<lparr>issuesClosed := issuesClosed acc + 1\<rparr>
             | OpPROpened \<Rightarrow> acc\<lparr>prsOpened := prsOpened acc + 1\<rparr>
             | OpPRMerged y \<Rightarrow>
                 if y then acc\<lparr>prsMerged := prsMerged acc + 1, yoloMerges := yoloMerges acc + 1\<rparr>
                 else acc\<lparr>prsMerged := prsMerged acc + 1\<rparr>
             | OpCommentPosted \<Rightarrow> acc\<lparr>commentsPosted := commentsPosted acc + 1\<rparr>
             | OpCoAuthoredCommit \<Rightarrow> acc\<lparr>coAuthoredCommits := coAuthoredCommits acc + 1\<rparr>
             | OpIssueToComment a b \<Rightarrow>
                 acc\<lparr>issueToFirstCommentMs :=
                       issueToFirstCommentMs acc @ [max (getTime b - getTime a) 0]\<rparr>
             | OpPRToMerge a b \<Rightarrow>
                 acc\<lparr>prOpenToMergeMs :=
                       prOpenToMergeMs acc @ [max (getTime b - getTime a) 0]\<rparr>)"
proof
  assume r: "current st = Some acc"
  have "length (written op) = (if op = OpPRMerged True then 2 else 1)"
    by (cases op) simp_all
  then show "fst (applyOp op st) = Inr () \<and>
     persisted (snd (applyOp op st)) = persisted st \<and>
     (\<exists>acc'. current (snd (applyOp op st)) = Some acc' \<and>
        changedFields acc acc' = written op) \<and>
     length (written op) = (if op = OpPRMerged True then 2 else 1) \<and>
     current (snd (applyOp op st)) =
       Some (case op of
               OpIssueCreated \<Rightarrow> acc\<lparr>issuesCreated := issuesCreated acc + 1\<rparr>
             | OpIssueClosed \<Rightarrow> acc\<lparr>issuesClosed := issuesClosed acc + 1\<rparr>
             | OpPROpened \<Rightarrow> acc\<lparr>prsOpened := prsOpened acc + 1\<rparr>
             | OpPRMerged y \<Rightarrow>
                 if y then acc\<lparr>prsMerged := prsMerged acc + 1, yoloMerges := yoloMerges acc + 1\<rparr>
                 else acc\<lparr>prsMerged := prsMerged acc + 1\<rparr>
             | OpCommentPosted \<Rightarrow> acc\<lparr>commentsPosted := commentsPosted acc + 1\<rparr>
             | OpCoAuthoredCommit \<Rightarrow> acc\<lparr>coAuthoredCommits := coAuthoredCommits acc + 1\<rparr>
             | OpIssueToComment a b \<Rightarrow>
                 acc\<lparr>issueToFirstCommentMs :=
                       issueToFirstCommentMs acc @ [max (getTime b - getTime a) 0]\<rparr>
             | OpPRToMerge a b \<Rightarrow>
                 acc\<lparr>prOpenToMergeMs :=
                       prOpenToMergeMs acc @ [max (getTime b - getTime a) 0]\<rparr>)"
    using applyOp_ok [OF r, of op] applyOp_persisted [of op st] applyOp_changed [OF r, of op]
      applyOp_effect [OF r, of op]
    by blast
qed

text \<open>
  On a run that has counted 3 comments, 1 merge and no YOLO merge: \<open>recordCommentPosted\<close>
  changes only \<open>commentsPosted\<close>, to 4; \<open>recordPRMerged\<close> with the flag set changes
  \<open>prsMerged\<close> to 2 and \<open>yoloMerges\<close> to 1; \<open>recordPRToMerge\<close> for a merge 7 s after the
  pull request extends the sequence by 7000.
\<close>

theorem record_ops_frame_witness:
  "current busy = Some busyAcc \<and>
   fst (applyOp OpCommentPosted busy) = Inr () \<and>
   (\<exists>acc'. current (snd (applyOp OpCommentPosted busy)) = Some acc' \<and>
      changedFields busyAcc acc' = [FCommentsPosted]) \<and>
   (\<exists>acc'. current (snd (applyOp (OpPRMerged True) busy)) = Some acc' \<and>
      changedFields busyAcc acc' = [FPrsMerged, FYoloMerges]) \<and>
   map_option commentsPosted (current (snd (applyOp OpCommentPosted busy))) = Some 4 \<and>
   map_option prsMerged (current (snd (applyOp (OpPRMerged True) busy))) = Some 2 \<and>
   map_option yoloMerges (current (snd (applyOp (OpPRMerged True) busy))) = Some 1 \<and>
   map_option prOpenToMergeMs
     (current (snd (applyOp (OpPRToMerge (Timestamp 1000) (Timestamp 8000)) busy))) =
     Some [9000, 7000]"
proof -
  have c: "current busy = Some busyAcc" by (simp add: busy_def)
  note f1 = record_ops_frame [of busy busyAcc OpCommentPosted]
    and f2 = record_ops_frame [of busy busyAcc "OpPRMerged True"]
    and f3 = record_ops_frame [of busy busyAcc "OpPRToMerge (Timestamp 1000) (Timestamp 8000)"]
  from f1 c have v1:
    "current (snd (applyOp OpCommentPosted busy)) =
       Some (busyAcc\<lparr>commentsPosted := commentsPosted busyAcc + 1\<rparr>)"
    by simp
  from f2 c have v2:
    "current (snd (applyOp (OpPRMerged True) busy)) =
       Some (busyAcc\<lparr>prsMerged := prsMerged busyAcc + 1,
                      yoloMerges := yoloMerges busyAcc + 1\<rparr>)"
    by simp
  from f3 c have v3:
    "current (snd (applyOp (OpPRToMerge (Timestamp 1000) (Timestamp 8000)) busy)) =
       Some (busyAcc\<lparr>prOpenToMergeMs := prOpenToMergeMs busyAcc @ [7000]\<rparr>)"
    by simp
  from f1 c have a1: "fst (applyOp OpCommentPosted busy) = Inr ()"
    and a2: "\<exists>acc'. current (snd (applyOp OpCommentPosted busy)) = Some acc' \<and>
        changedFields busyAcc acc' = written OpCommentPosted"
    by blast+
  from f2 c have a3: "\<exists>acc'. current (snd (applyOp (OpPRMerged True) busy)) = Some acc' \<and>
        changedFields busyAcc acc' = written (OpPRMerged True)"
    by blast
  have w: "written OpCommentPosted = [FCommentsPosted]"
    "written (OpPRMerged True) = [FPrsMerged, FYoloMerges]"
    by simp_all
  from a1 a2 a3 have fr:
    "fst (applyOp OpCommentPosted busy) = Inr () \<and>
     (\<exists>acc'. current (snd (applyOp OpCommentPosted busy)) = Some acc' \<and>
        changedFields busyAcc acc' = [FCommentsPosted]) \<and>
     (\<exists>acc'. current (snd (applyOp (OpPRMerged True) busy)) = Some acc' \<and>
        changedFields busyAcc acc' = [FPrsMerged, FYoloMerges])"
    unfolding w by blast
  have "map_option commentsPosted (current (snd (applyOp OpCommentPosted busy))) = Some 4"
    "map_option prsMerged (current (snd (applyOp (OpPRMerged True) busy))) = Some 2"
    "map_option yoloMerges (current (snd (applyOp (OpPRMerged True) busy))) = Some 1"
    "map_option prOpenToMergeMs
       (current (snd (applyOp (OpPRToMerge (Timestamp 1000) (Timestamp 8000)) busy))) =
       Some [9000, 7000]"
    unfolding v1 v2 v3 by (simp_all add: busyAcc_def)
  with c fr show ?thesis by blast
qed

lemma applyOp_nonneg:
  "current st = Some acc \<Longrightarrow> nonnegAcc acc \<Longrightarrow>
     \<exists>acc'. current (snd (applyOp op st)) = Some acc' \<and> nonnegAcc acc'"
  by (cases op) (simp_all add: record_defs ensureRunning_def Let_def nonnegAcc_def)

lemma runOps_nonneg:
  "current st = Some acc \<Longrightarrow> nonnegAcc acc \<Longrightarrow>
     \<exists>acc'. current (runOps ops st) = Some acc' \<and> nonnegAcc acc'"
proof (induction ops arbitrary: st acc)
  case Nil
  then show ?case by simp
next
  case (Cons op ops)
  from applyOp_nonneg [OF Cons.prems, of op]
  obtain acc1 where "current (snd (applyOp op st)) = Some acc1" "nonnegAcc acc1" by blast
  from Cons.IH [OF this] show ?case by simp
qed

lemma startRun_nonneg:
  "\<exists>acc. current (snd (startRun now st)) = Some acc \<and> nonnegAcc acc"
  by (simp add: startRun_def nonnegAcc_def)

text \<open>
  Claim C7. With a run in flight, \<open>recordIssueToComment\<close> and \<open>recordPRToMerge\<close> append
  the maximum of the difference of the two time values and 0 to their latency sequence
  and change nothing else; when the second timestamp is earlier than the first, what is
  appended is 0. Every recording operation keeps all counters and all recorded durations
  at least 0, so after \<open>startRun\<close> and any sequence of recording operations the run is
  still in flight and every counter and every duration of its record is at least 0.
\<close>

theorem latencies_clamped_nonneg:
  "(current st = Some acc \<longrightarrow>
      current (snd (recordIssueToComment a b st)) =
        Some (acc\<lparr>issueToFirstCommentMs :=
                    issueToFirstCommentMs acc @ [max (getTime b - getTime a) 0]\<rparr>) \<and>
      current (snd (recordPRToMerge a b st)) =
        Some (acc\<lparr>prOpenToMergeMs :=
                    prOpenToMergeMs acc @ [max (getTime b - getTime a) 0]\<rparr>)) \<and>
   (current st = Some acc \<and> getTime b < getTime a \<longrightarrow>
      current (snd (recordIssueToComment a b st)) =
        Some (acc\<lparr>issueToFirstCommentMs := issueToFirstCommentMs acc @ [0]\<rparr>) \<and>
      current (snd (recordPRToMerge a b st)) =
        Some (acc\<lparr>prOpenToMergeMs := prOpenToMergeMs acc @ [0]\<rparr>)) \<and>
   (current st = Some acc \<and> nonnegAcc acc \<longrightarrow>
      (\<exists>acc'. current (runOps ops st) = Some acc' \<and> nonnegAcc acc')) \<and>
   (\<exists>acc'. current (runOps ops (snd (startRun now st))) = Some acc' \<and> nonnegAcc acc')"
proof (intro conjI impI)
  assume "current st = Some acc \<and> nonnegAcc acc"
  then show "\<exists>acc'. current (runOps ops st) = Some acc' \<and> nonnegAcc acc'"
    using runOps_nonneg by blast
next
  from startRun_nonneg [of now st]
  obtain acc0 where "current (snd (startRun now st)) = Some acc0" "nonnegAcc acc0" by blast
  then show "\<exists>acc'. current (runOps ops (snd (startRun now st))) = Some acc' \<and> nonnegAcc acc'"
    by (rule runOps_nonneg)
qed (simp_all add: recordIssueToComment_def recordPRToMerge_def ensureRunning_def Let_def)

text \<open>
  A comment stamped two seconds before its issue is recorded as a latency of 0, and a
  run that sees such timestamps keeps every duration at least 0.
\<close>

theorem latencies_clamped_nonneg_witness:
  "current busy = Some busyAcc \<and> nonnegAcc busyAcc \<and>
   getTime (Timestamp 3000) < getTime (Timestamp 5000) \<and>
   map_option issueToFirstCommentMs
     (current (snd (recordIssueToComment (Timestamp 5000) (Timestamp 3000) busy))) =
     Some [1200, 800, 0] \<and>
   (\<exists>acc'. current (runOps skewOps busy) = Some acc' \<and> nonnegAcc acc')"
  using latencies_clamped_nonneg
          [of busy busyAcc "Timestamp 5000" "Timestamp 3000" skewOps "''t''"]
  by (simp add: busy_def busyAcc_def nonnegAcc_def)

section \<open>The analytics accumulator: aggregate report\<close>

lemma foldl_add: "foldl (\<lambda>a b. a + b) (a::int) xs = a + sum_list xs"
  by (induction xs arbitrary: a) auto

lemma sum_nums_sum_list: "sum_nums xs = sum_list xs"
  by (simp add: sum_nums_def foldl_add)

lemma avg_mean:
  "avg xs = (if xs = [] then 0 else of_int (sum_list xs) / of_nat (length xs))"
  by (simp add: avg_def sum_nums_sum_list)

lemma endRun_appends:
  "current st = Some cur \<Longrightarrow>
     fst (endRun now st) = Inr (RunAccumulator.extend cur (RunRecord.fields now)) \<and>
     current (snd (endRun now st)) = None \<and>
     runs (loadPersistedData (persisted (snd (endRun now st)))) =
       runs (loadPersistedData (persisted st)) @
       [RunAccumulator.extend cur (RunRecord.fields now)]"
  by (cases "persisted st")
     (simp_all add: endRun_def Let_def savePersistedData_def loadPersistedData_def
        emptyData_def)

text \<open>
  Claim C6. Over the runs that \<open>loadPersistedData\<close> reads from the store (all of them
  when the store holds data with a version other than 0), the report gives for each
  counter the sum of that field over the runs, and for each of the two latencies 0 when
  the concatenation of that sequence over the runs is empty and otherwise the sum of the
  concatenation divided by its length. With a run in flight, \<open>endRun\<close> returns the record
  of that run and the store read afterwards holds the earlier runs followed by that
  record, so the report that follows counts it.
\<close>

theorem aggregate_totals_and_means:
  "(let rs = runs (loadPersistedData d);
        stats = getAggregateStats d;
        allIssueToComment = concat (map issueToFirstCommentMs rs);
        allPRToMerge = concat (map prOpenToMergeMs rs)
    in totalRuns stats = length rs \<and>
       totalIssuesCreated stats = (\<Sum>r\<leftarrow>rs. issuesCreated r) \<and>
       totalIssuesClosed stats = (\<Sum>r\<leftarrow>rs. issuesClosed r) \<and>
       totalPRsOpened stats = (\<Sum>r\<leftarrow>rs. prsOpened r) \<and>
       totalPRsMerged stats = (\<Sum>r\<leftarrow>rs. prsMerged r) \<and>
       totalYoloMerges stats = (\<Sum>r\<leftarrow>rs. yoloMerges r) \<and>
       totalComments stats = (\<Sum>r\<leftarrow>rs. commentsPosted r) \<and>
       totalCoAuthoredCommits stats = (\<Sum>r\<leftarrow>rs. coAuthoredCommits r) \<and>
       avgIssueToCommentMs stats =
         (if allIssueToComment = [] then 0
          else of_int (sum_list allIssueToComment) / of_nat (length allIssueToComment)) \<and>
       avgPRToMergeMs stats =
         (if allPRToMerge = [] then 0
          else of_int (sum_list allPRToMerge) / of_nat (length allPRToMerge))) \<and>
   (version data \<noteq> 0 \<longrightarrow> loadPersistedData (Json data) = data) \<and>
   (current st = Some cur \<longrightarrow>
      (\<exists>finished. fst (endRun now st) = Inr finished \<and>
         RunAccumulator.truncate finished = cur \<and>
         runs (loadPersistedData (persisted (snd (endRun now st)))) =
           runs (loadPersistedData (persisted st)) @ [finished]))"
proof (intro conjI impI)
  assume c: "current st = Some cur"
  have "RunAccumulator.truncate (RunAccumulator.extend cur (RunRecord.fields now)) = cur"
    by (simp add: RunAccumulator.defs RunRecord.defs)
  with endRun_appends [OF c, of now]
  show "\<exists>finished. fst (endRun now st) = Inr finished \<and>
         RunAccumulator.truncate finished = cur \<and>
         runs (loadPersistedData (persisted (snd (endRun now st)))) =
           runs (loadPersistedData (persisted st)) @ [finished]"
    by blast
next
  assume "version data \<noteq> 0"
  then show "loadPersistedData (Json data) = data" by (simp add: loadPersistedData_def)
next
  show "(let rs = runs (loadPersistedData d);
        stats = getAggregateStats d;
        allIssueToComment = concat (map issueToFirstCommentMs rs);
        allPRToMerge = concat (map prOpenToMergeMs rs)
    in totalRuns stats = length rs \<and>
       totalIssuesCreated stats = (\<Sum>r\<leftarrow>rs. issuesCreated r) \<and>
       totalIssuesClosed stats = (\<Sum>r\<leftarrow>rs. issuesClosed r) \<and>
       totalPRsOpened stats = (\<Sum>r\<leftarrow>rs. prsOpened r) \<and>
       totalPRsMerged stats = (\<Sum>r\<leftarrow>rs. prsMerged r) \<and>
       totalYoloMerges stats = (\<Sum>r\<leftarrow>rs. yoloMerges r) \<and>
       totalComments stats = (\<Sum>r\<leftarrow>rs. commentsPosted r) \<and>
       totalCoAuthoredCommits stats = (\<Sum>r\<leftarrow>rs. coAuthoredCommits r) \<and>
       avgIssueToCommentMs stats =
         (if allIssueToComment = [] then 0
          else of_int (sum_list allIssueToComment) / of_nat (length allIssueToComment)) \<and>
       avgPRToMergeMs stats =
         (if allPRToMerge = [] then 0
          else of_int (sum_list allPRToMerge) / of_nat (length allPRToMerge)))"
    unfolding Let_def getAggregateStats_def
    by (simp only: AggregateStats.simps sum_nums_sum_list avg_mean simp_thms)
qed

text \<open>
  A store with one earlier run (3 issues, one latency of 1000 ms) and a run in flight
  (2 issues, latencies 1200 and 800 ms, one merge after 9000 ms): after \<open>endRun\<close> the
  report counts 5 issues over 2 runs, with averages 1000 and 9000; an absent store
  reports averages of 0.
\<close>

theorem aggregate_totals_and_means_witness:
  "version history \<noteq> 0 \<and> current busyStored = Some busyAcc \<and>
   loadPersistedData (Json history) = history \<and>
   totalRuns (getAggregateStats
     (persisted (snd (endRun ''2024-05-01T10:09:00.000Z'' busyStored)))) = 2 \<and>
   totalIssuesCreated (getAggregateStats
     (persisted (snd (endRun ''2024-05-01T10:09:00.000Z'' busyStored)))) = 5 \<and>
   avgIssueToCommentMs (getAggregateStats
     (persisted (snd (endRun ''2024-05-01T10:09:00.000Z'' busyStored)))) = 1000 \<and>
   avgPRToMergeMs (getAggregateStats
     (persisted (snd (endRun ''2024-05-01T10:09:00.000Z'' busyStored)))) = 9000 \<and>
   avgIssueToCommentMs (getAggregateStats NoFile) = 0"
proof -
  let ?now = "''2024-05-01T10:09:00.000Z''"
  let ?d = "persisted (snd (endRun ?now busyStored))"
  have c: "current busyStored = Some busyAcc" by (simp add: busyStored_def)
  have v: "version history \<noteq> 0" by (simp add: history_def)
  from aggregate_totals_and_means
         [where d = ?d and data = history and st = busyStored and cur = busyAcc and now = ?now]
       c v
  obtain finished where
      l: "loadPersistedData (Json history) = history"
    and f: "RunAccumulator.truncate finished = busyAcc"
    and r: "runs (loadPersistedData ?d) = runs (loadPersistedData (persisted busyStored)) @ [finished]"
    and s: "totalRuns (getAggregateStats ?d) = length (runs (loadPersistedData ?d))"
      "totalIssuesCreated (getAggregateStats ?d) =
         (\<Sum>r\<leftarrow>runs (loadPersistedData ?d). issuesCreated r)"
      "avgIssueToCommentMs (getAggregateStats ?d) =
         (if concat (map issueToFirstCommentMs (runs (loadPersistedData ?d))) = [] then 0
          else of_int (sum_list (concat (map issueToFirstCommentMs (runs (loadPersistedData ?d))))) /
               of_nat (length (concat (map issueToFirstCommentMs (runs (loadPersistedData ?d))))))"
      "avgPRToMergeMs (getAggregateStats ?d) =
         (if concat (map prOpenToMergeMs (runs (loadPersistedData ?d))) = [] then 0
          else of_int (sum_list (concat (map prOpenToMergeMs (runs (loadPersistedData ?d))))) /
               of_nat (length (concat (map prOpenToMergeMs (runs (loadPersistedData ?d))))))"
    unfolding Let_def by blast
  have fi: "issuesCreated finished = 2" "issueToFirstCommentMs finished = [1200, 800]"
    "prOpenToMergeMs finished = [9000]"
    using f by (auto simp: RunAccumulator.truncate_def busyAcc_def)
  have old: "runs (loadPersistedData (persisted busyStored)) = [pastRun]"
    using l by (simp add: busyStored_def history_def)
  from aggregate_totals_and_means [where d = NoFile]
  have n: "avgIssueToCommentMs (getAggregateStats NoFile) = 0"
    by (simp add: Let_def loadPersistedData_def emptyData_def)
  show ?thesis
    using c v l n s by (simp add: r old fi pastRun_def)
qed

section \<open>The human-readable report\<close>

lemma ends_with_s_not_na: "xs @ ''s'' \<noteq> ''n/a''"
proof
  assume "xs @ ''s'' = ''n/a''"
  then have "last (xs @ ''s'') = last ''n/a''" by simp
  then show False by simp
qed

lemma Math_round_nearest: "\<bar>of_int (Math_round x) - x\<bar> \<le> 1 / 2"
  unfolding Math_round_def by linarith

lemma Math_round_nonneg: "0 \<le> x \<Longrightarrow> 0 \<le> Math_round x"
  unfolding Math_round_def by simp

lemma formatMs_pos:
  assumes "0 < ms"
  shows "formatMs ms =
           (if Math_round (ms / 1000) < 60 then string_of_nat (nat (Math_round (ms / 1000))) @ ''s''
            else string_of_nat (nat (Math_round (ms / 1000) div 60)) @ ''m '' @
                 string_of_nat (nat (Math_round (ms / 1000) mod 60)) @ ''s'')"
proof -
  have "0 \<le> Math_round (ms / 1000)" using assms by (intro Math_round_nonneg) simp
  then have "0 \<le> Math_round (ms / 1000) div 60" "\<not> Math_round (ms / 1000) mod 60 < 0"
    by (simp_all add: pos_imp_zdiv_nonneg_iff)
  with \<open>0 \<le> Math_round (ms / 1000)\<close> assms show ?thesis
    by (simp add: formatMs_def Let_def string_of_int_def)
qed

lemma empty_latencies_avg:
  assumes "\<forall>r\<in>set rs. f r = ([] :: int list)"
  shows "avg (concat (map f rs)) = 0"
proof -
  have "concat (map f rs) = []" using assms by simp
  then show ?thesis by (simp add: avg_def)
qed

lemma formatMs_examples:
  "Math_round 90 = 90" "formatMs 90000 = ''1m 30s''" "formatMs 59499 = ''59s''"
  "formatMs 59500 = ''1m 0s''" "formatMs 400 = ''0s''"
  by code_simp+

lemma report_examples:
  "formatMs ((60000 + 120000) / 2) = ''1m 30s''" "formatMs ((59000 + 59998) / 2) = ''59s''"
  "formatMs 1000 = ''1s''"
  by code_simp+

text \<open>
  Claim C10. A duration of exactly 0 is rendered \<open>n/a\<close>. A positive duration is rounded
  to the nearest whole number of seconds (at most half a second away, never below 0) and
  rendered as the seconds followed by \<open>s\<close> when the rounded value is below 60, and as
  minutes, \<open>m\<close>, a space, the remaining seconds and \<open>s\<close> otherwise; that text is never
  \<open>n/a\<close>. For every store the console summary has 14 lines, and its two average lines
  are the label followed by that rendering of the average: of 0 when the concatenation
  of the latency sequence over the persisted runs is empty, and otherwise of its sum
  divided by its length. So when no persisted run has a recorded latency, both average
  lines end in \<open>n/a\<close>.
\<close>

theorem formatMs_rendering:
  "formatMs 0 = ''n/a'' \<and>
   (0 < ms \<longrightarrow>
      (let seconds = Math_round (ms / 1000)
       in 0 \<le> seconds \<and> \<bar>of_int seconds - ms / 1000\<bar> \<le> 1 / 2 \<and>
          (seconds < 60 \<longrightarrow> formatMs ms = string_of_nat (nat seconds) @ ''s'') \<and>
          (60 \<le> seconds \<longrightarrow>
             formatMs ms =
               string_of_nat (nat (seconds div 60)) @ ''m '' @
               string_of_nat (nat (seconds mod 60)) @ ''s'') \<and>
          formatMs ms \<noteq> ''n/a'')) \<and>
   ((\<forall>r\<in>set (runs (loadPersistedData d)). issueToFirstCommentMs r = [] \<and> prOpenToMergeMs r = []) \<longrightarrow>
      printConsoleSummary d ! 11 = ''  Avg issue'' @ arrow @ ''comment ....... n/a'' \<and>
      printConsoleSummary d ! 12 = ''  Avg PR'' @ arrow @ ''merge ............ n/a'') \<and>
   length (printConsoleSummary d) = 14 \<and>
   printConsoleSummary d ! 11 =
     ''  Avg issue'' @ arrow @ ''comment ....... '' @
     formatMs
       (if concat (map issueToFirstCommentMs (runs (loadPersistedData d))) = [] then 0
        else of_int (sum_list (concat (map issueToFirstCommentMs (runs (loadPersistedData d))))) /
             of_nat (length (concat (map issueToFirstCommentMs (runs (loadPersistedData d)))))) \<and>
   printConsoleSummary d ! 12 =
     ''  Avg PR'' @ arrow @ ''merge ............ '' @
     formatMs
       (if concat (map prOpenToMergeMs (runs (loadPersistedData d))) = [] then 0
        else of_int (sum_list (concat (map prOpenToMergeMs (runs (loadPersistedData d))))) /
             of_nat (length (concat (map prOpenToMergeMs (runs (loadPersistedData d))))))"
proof (intro conjI impI)
  show "formatMs 0 = ''n/a''" by (simp add: formatMs_def)
next
  assume pos: "0 < ms"
  have ne: "formatMs ms \<noteq> ''n/a''"
    using ends_with_s_not_na [of "string_of_nat (nat (Math_round (ms / 1000)))"]
      ends_with_s_not_na [of "string_of_nat (nat (Math_round (ms / 1000) div 60)) @ ''m '' @
                 string_of_nat (nat (Math_round (ms / 1000) mod 60))"]
    by (simp add: formatMs_pos [OF pos])
  have "0 \<le> Math_round (ms / 1000)" using pos by (intro Math_round_nonneg) simp
  with ne show "let seconds = Math_round (ms / 1000)
       in 0 \<le> seconds \<and> \<bar>of_int seconds - ms / 1000\<bar> \<le> 1 / 2 \<and>
          (seconds < 60 \<longrightarrow> formatMs ms = string_of_nat (nat seconds) @ ''s'') \<and>
          (60 \<le> seconds \<longrightarrow>
             formatMs ms =
               string_of_nat (nat (seconds div 60)) @ ''m '' @
               string_of_nat (nat (seconds mod 60)) @ ''s'') \<and>
          formatMs ms \<noteq> ''n/a''"
    unfolding Let_def
    using Math_round_nearest [of "ms / 1000"] formatMs_pos [OF pos]
    by (simp)
next
  assume h: "\<forall>r\<in>set (runs (loadPersistedData d)). issueToFirstCommentMs r = [] \<and> prOpenToMergeMs r = []"
  have a1: "avgIssueToCommentMs (getAggregateStats d) = 0"
    using h empty_latencies_avg [of "runs (loadPersistedData d)" issueToFirstCommentMs]
    by (simp add: getAggregateStats_def Let_def)
  have a2: "avgPRToMergeMs (getAggregateStats d) = 0"
    using h empty_latencies_avg [of "runs (loadPersistedData d)" prOpenToMergeMs]
    by (simp add: getAggregateStats_def Let_def)
  show "printConsoleSummary d ! 11 = ''  Avg issue'' @ arrow @ ''comment ....... n/a''"
    by (simp add: printConsoleSummary_def Let_def a1 formatMs_def)
  show "printConsoleSummary d ! 12 = ''  Avg PR'' @ arrow @ ''merge ............ n/a''"
    by (simp add: printConsoleSummary_def Let_def a2 formatMs_def)
next
  show "length (printConsoleSummary d) = 14"
    by (simp add: printConsoleSummary_def Let_def)
next
  show "printConsoleSummary d ! 11 =
     ''  Avg issue'' @ arrow @ ''comment ....... '' @
     formatMs
       (if concat (map issueToFirstCommentMs (runs (loadPersistedData d))) = [] then 0
        else of_int (sum_list (concat (map issueToFirstCommentMs (runs (loadPersistedData d))))) /
             of_nat (length (concat (map issueToFirstCommentMs (runs (loadPersistedData d))))))"
    by (simp add: printConsoleSummary_def Let_def getAggregateStats_def avg_mean)
next
  show "printConsoleSummary d ! 12 =
     ''  Avg PR'' @ arrow @ ''merge ............ '' @
     formatMs
       (if concat (map prOpenToMergeMs (runs (loadPersistedData d))) = [] then 0
        else of_int (sum_list (concat (map prOpenToMergeMs (runs (loadPersistedData d))))) /
             of_nat (length (concat (map prOpenToMergeMs (runs (loadPersistedData d))))))"
    by (simp add: printConsoleSummary_def Let_def getAggregateStats_def avg_mean)
qed

text \<open>
  90000 ms is shown as \<open>1m 30s\<close>, 59499 ms as \<open>59s\<close>, 59500 ms as \<open>1m 0s\<close>. A store
  whose run recorded latencies averaging 90000 ms and 59499 ms reports \<open>1m 30s\<close> and
  \<open>59s\<close>; a store whose run recorded one latency of 1000 ms and no merge latency reports
  \<open>1s\<close> and \<open>n/a\<close>; a store whose run recorded no latency, and an absent store, report
  \<open>n/a\<close> twice.
\<close>

theorem formatMs_rendering_witness:
  "(0::rat) < 90000 \<and> 60 \<le> Math_round (90000 / 1000) \<and> formatMs 90000 = ''1m 30s'' \<and>
   formatMs 90000 =
     string_of_nat (nat (90 div 60)) @ ''m '' @ string_of_nat (nat (90 mod 60)) @ ''s'' \<and>
   formatMs 59499 = ''59s'' \<and> formatMs 59500 = ''1m 0s'' \<and>
   printConsoleSummary NoFile ! 11 = ''  Avg issue'' @ arrow @ ''comment ....... n/a'' \<and>
   printConsoleSummary NoFile ! 12 = ''  Avg PR'' @ arrow @ ''merge ............ n/a'' \<and>
   runs (loadPersistedData (Json quietHistory)) = [quietRun] \<and>
   issueToFirstCommentMs quietRun = [] \<and> prOpenToMergeMs quietRun = [] \<and>
   printConsoleSummary (Json quietHistory) ! 11 =
     ''  Avg issue'' @ arrow @ ''comment ....... n/a'' \<and>
   printConsoleSummary (Json quietHistory) ! 12 =
     ''  Avg PR'' @ arrow @ ''merge ............ n/a'' \<and>
   printConsoleSummary (Json slowHistory) ! 11 =
     ''  Avg issue'' @ arrow @ ''comment ....... 1m 30s'' \<and>
   printConsoleSummary (Json slowHistory) ! 12 =
     ''  Avg PR'' @ arrow @ ''merge ............ 59s'' \<and>
   printConsoleSummary (Json history) ! 11 =
     ''  Avg issue'' @ arrow @ ''comment ....... 1s'' \<and>
   printConsoleSummary (Json history) ! 12 =
     ''  Avg PR'' @ arrow @ ''merge ............ n/a''"
proof -
  have l: "runs (loadPersistedData NoFile) = []"
    by (simp add: loadPersistedData_def emptyData_def)
  have q: "runs (loadPersistedData (Json quietHistory)) = [quietRun]"
    by (simp add: loadPersistedData_def quietHistory_def)
  have sl: "runs (loadPersistedData (Json slowHistory)) = [slowRun]"
    by (simp add: loadPersistedData_def slowHistory_def)
  have hi: "runs (loadPersistedData (Json history)) = [pastRun]"
    by (simp add: loadPersistedData_def history_def)
  have z: "formatMs 0 = ''n/a''" by (simp add: formatMs_def)
  from formatMs_rendering [of 90000 NoFile] formatMs_rendering [of 90000 "Json quietHistory"]
    formatMs_rendering [of 90000 "Json slowHistory"] formatMs_rendering [of 90000 "Json history"]
  show ?thesis
    by (simp add: formatMs_examples report_examples z l q sl hi Let_def quietRun_def
          slowRun_def pastRun_def)
qed

section \<open>The mergeability poller\<close>

lemma polled_0: "polled t n 0 = t"
  by (simp add: polled_def)

lemma polled_Suc: "polled (t @ [Request (PullsGet n), Sleep DELAY_MS]) n k = polled t n (Suc k)"
  by (simp add: polled_def)

lemma pollCount_polled: "pollCount n (polled t n k) = pollCount n t + k"
  by (induction k) (simp_all add: polled_def pollCount_def)

lemma loop_decided:
  "a + m \<le> MAX_ATTEMPTS \<Longrightarrow>
   (\<forall>k<m. pullsGet e (polled t n k) n = Inr \<lparr>mergeable = None\<rparr>) \<Longrightarrow>
   pullsGet e (polled t n m) n = Inr \<lparr>mergeable = Some b\<rparr> \<Longrightarrow>
   isMergeable_loop e n a t = (Inr b, polled t n m @ [Request (PullsGet n)])"
proof (induction m arbitrary: a t)
  case 0
  then have "pullsGet e t n = Inr \<lparr>mergeable = Some b\<rparr>" by (simp add: polled_0)
  with 0 show ?case
    by (cases b) (simp_all add: isMergeable_loop.simps [of e n a t] withRateLimit_octokit_ok polled_0)
next
  case (Suc m)
  from Suc.prems(2) have first: "pullsGet e t n = Inr \<lparr>mergeable = None\<rparr>"
    using polled_0 [of t n] by (metis zero_less_Suc)
  let ?t' = "t @ [Request (PullsGet n), Sleep DELAY_MS]"
  have rest: "\<forall>k<m. pullsGet e (polled ?t' n k) n = Inr \<lparr>mergeable = None\<rparr>"
    using Suc.prems(2) by (simp add: polled_Suc)
  have last: "pullsGet e (polled ?t' n m) n = Inr \<lparr>mergeable = Some b\<rparr>"
    using Suc.prems(3) by (simp add: polled_Suc)
  have "Suc a + m \<le> MAX_ATTEMPTS" using Suc.prems(1) by simp
  from Suc.IH [OF this rest last]
  have "isMergeable_loop e n (Suc a) ?t' = (Inr b, polled t n (Suc m) @ [Request (PullsGet n)])"
    by (simp add: polled_Suc)
  moreover have "a \<le> MAX_ATTEMPTS" using Suc.prems(1) by simp
  ultimately show ?case
    by (simp add: isMergeable_loop.simps [of e n a t] withRateLimit_octokit_ok first sleep_def)
qed

lemma loop_undecided:
  "a + m = Suc MAX_ATTEMPTS \<Longrightarrow>
   (\<forall>k<m. pullsGet e (polled t n k) n = Inr \<lparr>mergeable = None\<rparr>) \<Longrightarrow>
   isMergeable_loop e n a t = (Inr False, polled t n m)"
proof (induction m arbitrary: a t)
  case 0
  then have "\<not> a \<le> MAX_ATTEMPTS" by simp
  then show ?case
    by (simp add: isMergeable_loop.simps [of e n a t] polled_0)
next
  case (Suc m)
  from Suc.prems(2) have first: "pullsGet e t n = Inr \<lparr>mergeable = None\<rparr>"
    using polled_0 [of t n] by (metis zero_less_Suc)
  let ?t' = "t @ [Request (PullsGet n), Sleep DELAY_MS]"
  have rest: "\<forall>k<m. pullsGet e (polled ?t' n k) n = Inr \<lparr>mergeable = None\<rparr>"
    using Suc.prems(2) by (simp add: polled_Suc)
  have "Suc a + m = Suc MAX_ATTEMPTS" using Suc.prems(1) by simp
  from Suc.IH [OF this rest]
  have "isMergeable_loop e n (Suc a) ?t' = (Inr False, polled t n (Suc m))"
    by (simp add: polled_Suc)
  moreover have "a \<le> MAX_ATTEMPTS" using Suc.prems(1) by simp
  ultimately show ?case
    by (simp add: isMergeable_loop.simps [of e n a t] withRateLimit_octokit_ok first sleep_def)
qed

lemma two_less: "(\<forall>k<(2::nat). P k) \<longleftrightarrow> P 0 \<and> P 1"
  by (auto simp: less_2_cases_iff)

lemma scripted_pullsGet:
  "pullsGet (scripted rs cf mf y) h n =
     Inr \<lparr>mergeable = (if pollCount n h < length rs then rs ! pollCount n h else None)\<rparr>"
  by (simp add: scripted_def Let_def)

lemma pollCount_Nil: "pollCount n [] = 0"
  by (simp add: pollCount_def)

text \<open>
  Claim C2. For every remote and every starting history: if the first \<open>m\<close> polls come
  back undecided and poll \<open>m + 1\<close> (with \<open>m\<close> below 5) comes back decided with \<open>b\<close>, then
  \<open>isMergeable\<close> returns \<open>b\<close>, having sent exactly \<open>m + 1\<close> polls with a 3 s sleep after
  each undecided one and nothing after the decided one; if the first 5 polls all come
  back undecided, it returns false, having sent exactly 5 polls.
\<close>

theorem isMergeable_polls:
  "(m < MAX_ATTEMPTS \<and>
    (\<forall>k<m. pullsGet e (polled t n k) n = Inr \<lparr>mergeable = None\<rparr>) \<and>
    pullsGet e (polled t n m) n = Inr \<lparr>mergeable = Some b\<rparr> \<longrightarrow>
      isMergeable e n t = (Inr b, polled t n m @ [Request (PullsGet n)]) \<and>
      pollCount n (snd (isMergeable e n t)) = pollCount n t + (m + 1)) \<and>
   ((\<forall>k<MAX_ATTEMPTS. pullsGet e (polled t n k) n = Inr \<lparr>mergeable = None\<rparr>) \<longrightarrow>
      isMergeable e n t = (Inr False, polled t n 5) \<and>
      pollCount n (snd (isMergeable e n t)) = pollCount n t + 5)"
proof (intro conjI impI)
  assume h: "m < MAX_ATTEMPTS \<and>
    (\<forall>k<m. pullsGet e (polled t n k) n = Inr \<lparr>mergeable = None\<rparr>) \<and>
    pullsGet e (polled t n m) n = Inr \<lparr>mergeable = Some b\<rparr>"
  then have "1 + m \<le> MAX_ATTEMPTS" by simp
  with h show r: "isMergeable e n t = (Inr b, polled t n m @ [Request (PullsGet n)])"
    unfolding isMergeable_def by (intro loop_decided) simp_all
  show "pollCount n (snd (isMergeable e n t)) = pollCount n t + (m + 1)"
    using pollCount_polled [of n t m] by (simp add: r pollCount_def)
next
  assume h: "\<forall>k<MAX_ATTEMPTS. pullsGet e (polled t n k) n = Inr \<lparr>mergeable = None\<rparr>"
  have "isMergeable_loop e n 1 t = (Inr False, polled t n MAX_ATTEMPTS)"
    using h by (intro loop_undecided) simp_all
  then show r: "isMergeable e n t = (Inr False, polled t n 5)"
    by (simp add: isMergeable_def MAX_ATTEMPTS_def)
  show "pollCount n (snd (isMergeable e n t)) = pollCount n t + 5"
    by (simp add: r pollCount_polled)
qed

text \<open>
  The sequence undecided, undecided, mergeable gives true after 3 polls; a remote that
  never decides gives false after 5 polls.
\<close>

theorem isMergeable_polls_witness:
  "isMergeable (scripted [None, None, Some True] [] [] False) 7 [] =
     (Inr True, [Request (PullsGet 7), Sleep 3000, Request (PullsGet 7), Sleep 3000,
                 Request (PullsGet 7)]) \<and>
   pollCount 7 (snd (isMergeable (scripted [None, None, Some True] [] [] False) 7 [])) = 3 \<and>
   isMergeable (scripted [] [] [] False) 7 [] =
     (Inr False, [Request (PullsGet 7), Sleep 3000, Request (PullsGet 7), Sleep 3000,
                  Request (PullsGet 7), Sleep 3000, Request (PullsGet 7), Sleep 3000,
                  Request (PullsGet 7), Sleep 3000]) \<and>
   pollCount 7 (snd (isMergeable (scripted [] [] [] False) 7 [])) = 5"
proof -
  let ?e = "scripted [None, None, Some True] [] [] False"
  let ?u = "scripted [] [] [] False"
  have h1: "2 < MAX_ATTEMPTS \<and>
      (\<forall>k<2. pullsGet ?e (polled [] 7 k) 7 = Inr \<lparr>mergeable = None\<rparr>) \<and>
      pullsGet ?e (polled [] 7 2) 7 = Inr \<lparr>mergeable = Some True\<rparr>"
    by (simp add: two_less scripted_pullsGet pollCount_polled pollCount_Nil MAX_ATTEMPTS_def)
  have h2: "\<forall>k<MAX_ATTEMPTS. pullsGet ?u (polled [] 7 k) 7 = Inr \<lparr>mergeable = None\<rparr>"
    by (simp add: scripted_pullsGet)
  have p2: "polled [] 7 2 = [Request (PullsGet 7), Sleep 3000, Request (PullsGet 7), Sleep 3000]"
    by (simp add: polled_def DELAY_MS_def numeral_2_eq_2)
  have p5: "polled [] 7 5 = [Request (PullsGet 7), Sleep 3000, Request (PullsGet 7), Sleep 3000,
                  Request (PullsGet 7), Sleep 3000, Request (PullsGet 7), Sleep 3000,
                  Request (PullsGet 7), Sleep 3000]"
    by (simp add: polled_def DELAY_MS_def eval_nat_numeral)
  from isMergeable_polls [of 2 ?e "[]" 7 True] h1 isMergeable_polls [of 0 ?u "[]" 7 True] h2
  show ?thesis
    by (simp add: p2 p5 pollCount_def)
qed

section \<open>The merge coordinator\<close>

lemma commentOnPR_cases:
  obtains res where
    "commentOnPR e n t = (res, t @ [Enter ''commentOnPR'', Request (CreateComment n), Exit ''commentOnPR''])"
  | res w where
    "commentOnPR e n t =
       (res, t @ [Enter ''commentOnPR'', Request (CreateComment n), Sleep w,
                  Request (CreateComment n), Exit ''commentOnPR''])"
proof -
  let ?c = "withRateLimit ''comment-pr''
             (octokit (\<lambda>h. createComment e h n) (CreateComment n)) (t @ [Enter ''commentOnPR''])"
  show ?thesis
  proof (rule withRateLimit_octokit_cases [of "''comment-pr''" "\<lambda>h. createComment e h n" "CreateComment n" "t @ [Enter ''commentOnPR'']"])
    fix res assume a: "?c = (res, (t @ [Enter ''commentOnPR'']) @ [Request (CreateComment n)])"
    then have "\<exists>res'. commentOnPR e n t = (res', t @ [Enter ''commentOnPR'', Request (CreateComment n), Exit ''commentOnPR''])"
      by (cases res) (simp_all add: commentOnPR_def)
    then show ?thesis using that(1) by blast
  next
    fix res w assume a: "?c = (res, (t @ [Enter ''commentOnPR'']) @ [Request (CreateComment n), Sleep w, Request (CreateComment n)])"
    then have "\<exists>res'. commentOnPR e n t = (res', t @ [Enter ''commentOnPR'', Request (CreateComment n), Sleep w,
                  Request (CreateComment n), Exit ''commentOnPR''])"
      by (cases res) (simp_all add: commentOnPR_def)
    then show ?thesis using that(2) by blast
  qed
qed

lemma merge_phase:
  "\<exists>post.
     snd (case withRateLimit ''merge-pr''
                 (octokit (\<lambda>h. pullsMerge e h n msg) (PullsMerge n msg)) (sleep 1000 tc) of
            (Inl err, t2) \<Rightarrow> (Inl err, t2)
          | (Inr d, t2) \<Rightarrow>
              (case deleteBranch e br t2 of
                 (r, t3) \<Rightarrow>
                   (Inr \<lparr>prNumber = n, mergeSha = sha d, yolo = uy,
                         mergedAt = clock e t3, deletedBranch = br\<rparr>, t3))) = tc @ post \<and>
     \<not> list_ex isCommentEvent post \<and>
     (\<forall>res.
        fst (case withRateLimit ''merge-pr''
                 (octokit (\<lambda>h. pullsMerge e h n msg) (PullsMerge n msg)) (sleep 1000 tc) of
            (Inl err, t2) \<Rightarrow> (Inl err, t2)
          | (Inr d, t2) \<Rightarrow>
              (case deleteBranch e br t2 of
                 (r, t3) \<Rightarrow>
                   (Inr \<lparr>prNumber = n, mergeSha = sha d, yolo = uy,
                         mergedAt = clock e t3, deletedBranch = br\<rparr>, t3))) = Inr res \<longrightarrow>
        yolo res = uy \<and> list_ex isMergeRequest post)"
proof (rule withRateLimit_octokit_cases [of "''merge-pr''" "\<lambda>h. pullsMerge e h n msg" "PullsMerge n msg" "sleep 1000 tc"])
  fix res
  assume a: "withRateLimit ''merge-pr'' (octokit (\<lambda>h. pullsMerge e h n msg) (PullsMerge n msg)) (sleep 1000 tc)
             = (res, sleep 1000 tc @ [Request (PullsMerge n msg)])"
  show ?thesis
    by (cases res) (simp_all add: a [unfolded sleep_def] deleteBranch_def octokit_def sleep_def)
next
  fix res w
  assume a: "withRateLimit ''merge-pr'' (octokit (\<lambda>h. pullsMerge e h n msg) (PullsMerge n msg)) (sleep 1000 tc)
             = (res, sleep 1000 tc @ [Request (PullsMerge n msg), Sleep w, Request (PullsMerge n msg)])"
  show ?thesis
    by (cases res) (simp_all add: a [unfolded sleep_def] deleteBranch_def octokit_def sleep_def)
qed

lemma mergePullRequest_yolo:
  assumes "(case y of Some b \<Rightarrow> b | None \<Rightarrow> yoloMode e)"
  shows "mergePullRequest e n br y t =
     (case withRateLimit ''merge-pr''
                 (octokit (\<lambda>h. pullsMerge e h n ''Merged without review (YOLO).'')
                    (PullsMerge n ''Merged without review (YOLO).'')) (sleep 1000 t) of
            (Inl err, t2) \<Rightarrow> (Inl err, t2)
          | (Inr d, t2) \<Rightarrow>
              (case deleteBranch e br t2 of
                 (r, t3) \<Rightarrow>
                   (Inr \<lparr>prNumber = n, mergeSha = sha d, yolo = True,
                         mergedAt = clock e t3, deletedBranch = br\<rparr>, t3)))"
  using assms by (simp add: mergePullRequest_def Let_def)

lemma mergePullRequest_reviewed:
  assumes "\<not> (case y of Some b \<Rightarrow> b | None \<Rightarrow> yoloMode e)"
  shows "mergePullRequest e n br y t =
     (case commentOnPR e n (sleep 1500 t) of
        (Inl err, t1) \<Rightarrow> (Inl err, t1)
      | (Inr c, t1) \<Rightarrow>
         (case withRateLimit ''merge-pr''
                 (octokit (\<lambda>h. pullsMerge e h n ''Merged after review.'')
                    (PullsMerge n ''Merged after review.'')) (sleep 1000 t1) of
            (Inl err, t2) \<Rightarrow> (Inl err, t2)
          | (Inr d, t2) \<Rightarrow>
              (case deleteBranch e br t2 of
                 (r, t3) \<Rightarrow>
                   (Inr \<lparr>prNumber = n, mergeSha = sha d, yolo = False,
                         mergedAt = clock e t3, deletedBranch = br\<rparr>, t3))))"
  using assms by (simp add: mergePullRequest_def Let_def split: prod.splits sum.splits)

lemma reviewed_after_comment:
  assumes c: "commentOnPR e n (sleep 1500 t) = (res, t @ [Sleep 1500] @ mid @ [Exit ''commentOnPR''])"
    and mid: "commentInvocations mid = 1" "\<not> list_ex isMergeRequest mid"
    and rev: "\<not> (case y of Some b \<Rightarrow> b | None \<Rightarrow> yoloMode e)"
  shows "\<exists>new. snd (mergePullRequest e n br y t) = t @ new \<and>
      commentInvocations new = 1 \<and>
      (\<exists>pre post. new = pre @ [Exit ''commentOnPR''] @ post \<and>
         \<not> list_ex isMergeRequest pre \<and> \<not> list_ex isCommentEvent post) \<and>
      (\<forall>r. fst (mergePullRequest e n br y t) = Inr r \<longrightarrow>
         yolo r = False \<and> list_ex isMergeRequest new)"
proof (cases res)
  case (Inl err)
  have "mergePullRequest e n br y t = (Inl err, t @ [Sleep 1500] @ mid @ [Exit ''commentOnPR''])"
    by (simp add: mergePullRequest_reviewed [OF rev] c Inl)
  moreover have "commentInvocations ([Sleep 1500] @ mid @ [Exit ''commentOnPR'']) = 1"
    using mid(1) by (simp add: commentInvocations_def)
  moreover have "\<not> list_ex isMergeRequest ([Sleep 1500] @ mid)"
    using mid(2) by simp
  ultimately show ?thesis
    by (intro exI [of _ "[Sleep 1500] @ mid @ [Exit ''commentOnPR'']"] conjI
              exI [of _ "[Sleep 1500] @ mid"] exI [of _ "[]"]) simp_all
next
  case (Inr pc)
  let ?t1 = "t @ [Sleep 1500] @ mid @ [Exit ''commentOnPR'']"
  let ?M = "case withRateLimit ''merge-pr''
                 (octokit (\<lambda>h. pullsMerge e h n ''Merged after review.'')
                    (PullsMerge n ''Merged after review.'')) (sleep 1000 ?t1) of
            (Inl err, t2) \<Rightarrow> (Inl err, t2)
          | (Inr d, t2) \<Rightarrow>
              (case deleteBranch e br t2 of
                 (r, t3) \<Rightarrow>
                   (Inr \<lparr>prNumber = n, mergeSha = sha d, yolo = False,
                         mergedAt = clock e t3, deletedBranch = br\<rparr>, t3))"
  have m: "mergePullRequest e n br y t = ?M"
    by (simp add: mergePullRequest_reviewed [OF rev] c Inr)
  from merge_phase [where e = e and n = n and msg = "''Merged after review.''" and tc = ?t1
                     and br = br and uy = False]
  obtain post where p: "snd ?M = ?t1 @ post" "\<not> list_ex isCommentEvent post"
    "\<forall>r. fst ?M = Inr r \<longrightarrow> yolo r = False \<and> list_ex isMergeRequest post"
    by blast
  have ci: "commentInvocations post = 0"
    using p(2) by (induction post) (auto simp: commentInvocations_def)
  have "snd (mergePullRequest e n br y t) = t @ ([Sleep 1500] @ mid @ [Exit ''commentOnPR''] @ post)"
    using p(1) m by simp
  moreover have "commentInvocations ([Sleep 1500] @ mid @ [Exit ''commentOnPR''] @ post) = 1"
    using mid(1) ci by (simp add: commentInvocations_def)
  moreover have "\<not> list_ex isMergeRequest ([Sleep 1500] @ mid)"
    using mid(2) by simp
  moreover have "\<forall>r. fst (mergePullRequest e n br y t) = Inr r \<longrightarrow>
         yolo r = False \<and> list_ex isMergeRequest ([Sleep 1500] @ mid @ [Exit ''commentOnPR''] @ post)"
    using p(3) m by (simp add: list_ex_iff) blast
  ultimately show ?thesis using p(2)
    by (intro exI [of _ "[Sleep 1500] @ mid @ [Exit ''commentOnPR''] @ post"] conjI
              exI [of _ "[Sleep 1500] @ mid"] exI [of _ post]) simp_all
qed

text \<open>
  Claim C3. The effective policy is the argument when one is given and \<open>config.yoloMode\<close>
  otherwise. For every remote and every history, the events that \<open>mergePullRequest\<close> adds
  to the trace are these. Under YOLO: no entry to \<open>commentOnPR\<close>, no exit from it and no
  comment request. Under review: exactly one entry to \<open>commentOnPR\<close>; its exit is in the
  trace, no merge request comes before that exit, and after it there is no further
  entry, exit or comment request. Whenever the call returns a result, a merge request
  was sent and the result carries the effective policy.
\<close>

theorem mergePullRequest_comment_before_merge:
  "\<exists>new. snd (mergePullRequest e n br y t) = t @ new \<and>
     ((case y of Some b \<Rightarrow> b | None \<Rightarrow> yoloMode e) \<longrightarrow> \<not> list_ex isCommentEvent new) \<and>
     (\<not> (case y of Some b \<Rightarrow> b | None \<Rightarrow> yoloMode e) \<longrightarrow>
        commentInvocations new = 1 \<and>
        (\<exists>pre post. new = pre @ [Exit ''commentOnPR''] @ post \<and>
           \<not> list_ex isMergeRequest pre \<and> \<not> list_ex isCommentEvent post)) \<and>
     (\<forall>r. fst (mergePullRequest e n br y t) = Inr r \<longrightarrow>
        yolo r = (case y of Some b \<Rightarrow> b | None \<Rightarrow> yoloMode e) \<and> list_ex isMergeRequest new)"
proof (cases "case y of Some b \<Rightarrow> b | None \<Rightarrow> yoloMode e")
  case True
  from merge_phase [where e = e and n = n and msg = "''Merged without review (YOLO).''" and tc = t
                     and br = br and uy = True]
  show ?thesis
    unfolding mergePullRequest_yolo [OF True, symmetric] using True by auto
next
  case False
  have "\<exists>new. snd (mergePullRequest e n br y t) = t @ new \<and>
      commentInvocations new = 1 \<and>
      (\<exists>pre post. new = pre @ [Exit ''commentOnPR''] @ post \<and>
         \<not> list_ex isMergeRequest pre \<and> \<not> list_ex isCommentEvent post) \<and>
      (\<forall>r. fst (mergePullRequest e n br y t) = Inr r \<longrightarrow>
         yolo r = False \<and> list_ex isMergeRequest new)"
  proof (rule commentOnPR_cases [of e n "sleep 1500 t"])
    fix res
    assume "commentOnPR e n (sleep 1500 t) =
      (res, sleep 1500 t @ [Enter ''commentOnPR'', Request (CreateComment n), Exit ''commentOnPR''])"
    then have "commentOnPR e n (sleep 1500 t) =
      (res, t @ [Sleep 1500] @ [Enter ''commentOnPR'', Request (CreateComment n)] @ [Exit ''commentOnPR''])"
      by (simp add: sleep_def)
    then show ?thesis
      by (rule reviewed_after_comment) (simp_all add: commentInvocations_def False)
  next
    fix res w
    assume "commentOnPR e n (sleep 1500 t) =
      (res, sleep 1500 t @ [Enter ''commentOnPR'', Request (CreateComment n), Sleep w,
                  Request (CreateComment n), Exit ''commentOnPR''])"
    then have "commentOnPR e n (sleep 1500 t) =
      (res, t @ [Sleep 1500] @ [Enter ''commentOnPR'', Request (CreateComment n), Sleep w,
                  Request (CreateComment n)] @ [Exit ''commentOnPR''])"
      by (simp add: sleep_def)
    then show ?thesis
      by (rule reviewed_after_comment) (simp_all add: commentInvocations_def False)
  qed
  with False show ?thesis by auto
qed

lemma merge_examples:
  "snd (mergePullRequest (scripted [] [throttled] [] False) 7 ''fix-7'' None []) =
     [Sleep 1500, Enter ''commentOnPR'', Request (CreateComment 7), Sleep 7000,
      Request (CreateComment 7), Exit ''commentOnPR'', Sleep 1000,
      Request (PullsMerge 7 ''Merged after review.''), Request (DeleteRef ''fix-7'')]"
  "snd (mergePullRequest (scripted [] [throttled] [] False) 7 ''fix-7'' (Some True) []) =
     [Sleep 1000, Request (PullsMerge 7 ''Merged without review (YOLO).''),
      Request (DeleteRef ''fix-7'')]"
  by code_simp+

text \<open>
  A reviewed merge whose comment is throttled once: one entry to the collaborator, two
  comment requests inside it, and the merge request after its exit. The same call with
  the YOLO flag: no comment event at all.
\<close>

theorem mergePullRequest_comment_before_merge_witness:
  "\<not> yoloMode (scripted [] [throttled] [] False) \<and>
   (\<exists>new. snd (mergePullRequest (scripted [] [throttled] [] False) 7 ''fix-7'' None []) = new \<and>
      commentInvocations new = 1 \<and>
      (\<exists>pre post. new = pre @ [Exit ''commentOnPR''] @ post \<and>
         \<not> list_ex isMergeRequest pre \<and> \<not> list_ex isCommentEvent post)) \<and>
   (\<exists>new. snd (mergePullRequest (scripted [] [throttled] [] False) 7 ''fix-7'' (Some True) [])
        = new \<and> \<not> list_ex isCommentEvent new) \<and>
   commentInvocations
     (snd (mergePullRequest (scripted [] [throttled] [] False) 7 ''fix-7'' None [])) = 1 \<and>
   commentInvocations
     (snd (mergePullRequest (scripted [] [throttled] [] False) 7 ''fix-7'' (Some True) [])) = 0"
proof -
  have y: "\<not> yoloMode (scripted [] [throttled] [] False)" by (simp add: scripted_def)
  from mergePullRequest_comment_before_merge
         [of "scripted [] [throttled] [] False" 7 "''fix-7''" None "[]"]
       mergePullRequest_comment_before_merge
         [of "scripted [] [throttled] [] False" 7 "''fix-7''" "Some True" "[]"]
       y
  show ?thesis
    by (simp add: merge_examples commentInvocations_def)
qed

end
